theory Spec2Isabelle
  imports Main "HOL-Library.AList"
begin

section \<open>JavaScript strings\<close>

text \<open>
  The converter is written in TypeScript; its strings are sequences of UTF-16 code units.
  The model uses \<^typ>\<open>string\<close>, so it covers the inputs whose code units are below 256
  (a \<^typ>\<open>char\<close> is read as the code unit of that number). Within that range the white
  space of \<^verbatim>\<open>/\s/\<close>, \<^verbatim>\<open>trim\<close> and \<^verbatim>\<open>trimStart\<close> is tab, line feed, vertical tab,
  form feed, carriage return, space and the no-break space. Case conversion is that of
  JavaScript on the range, with one limit: the capitals of the micro sign (\<open>0xB5\<close>) and
  of the y with diaeresis (\<open>0xFF\<close>) are code units above 255, and the model leaves these
  two characters as they are.
\<close>

definition SQ :: char where
  "SQ = CHR 0x27"

definition DQ :: char where
  "DQ = CHR 0x22"

definition BS :: char where
  "BS = CHR 0x5C"

definition is_space :: "char \<Rightarrow> bool" where
  "is_space c =
     (c = CHR 0x09 \<or> c = CHR 0x0A \<or> c = CHR 0x0B \<or> c = CHR 0x0C \<or> c = CHR 0x0D \<or>
      c = CHR 0x20 \<or> c = CHR 0xA0)"

definition trimStart :: "string \<Rightarrow> string" where
  "trimStart s = dropWhile is_space s"

definition trim :: "string \<Rightarrow> string" where
  "trim s = rev (dropWhile is_space (rev (dropWhile is_space s)))"

text \<open>
  The letters with a case counterpart in the range: the ASCII letters and the Latin-1
  letters \<open>0xC0\<close> to \<open>0xDE\<close> (capitals) and \<open>0xE0\<close> to \<open>0xFE\<close> (small), without the
  multiplication and the division sign.
\<close>

definition upper_letters :: string where
  "upper_letters =
     ''ABCDEFGHIJKLMNOPQRSTUVWXYZ'' @
     [CHR 0xC0, CHR 0xC1, CHR 0xC2, CHR 0xC3, CHR 0xC4, CHR 0xC5, CHR 0xC6, CHR 0xC7,
      CHR 0xC8, CHR 0xC9, CHR 0xCA, CHR 0xCB, CHR 0xCC, CHR 0xCD, CHR 0xCE, CHR 0xCF,
      CHR 0xD0, CHR 0xD1, CHR 0xD2, CHR 0xD3, CHR 0xD4, CHR 0xD5, CHR 0xD6, CHR 0xD8,
      CHR 0xD9, CHR 0xDA, CHR 0xDB, CHR 0xDC, CHR 0xDD, CHR 0xDE]"

definition lower_letters :: string where
  "lower_letters =
     ''abcdefghijklmnopqrstuvwxyz'' @
     [CHR 0xE0, CHR 0xE1, CHR 0xE2, CHR 0xE3, CHR 0xE4, CHR 0xE5, CHR 0xE6, CHR 0xE7,
      CHR 0xE8, CHR 0xE9, CHR 0xEA, CHR 0xEB, CHR 0xEC, CHR 0xED, CHR 0xEE, CHR 0xEF,
      CHR 0xF0, CHR 0xF1, CHR 0xF2, CHR 0xF3, CHR 0xF4, CHR 0xF5, CHR 0xF6, CHR 0xF8,
      CHR 0xF9, CHR 0xFA, CHR 0xFB, CHR 0xFC, CHR 0xFD, CHR 0xFE]"

definition lower_char :: "char \<Rightarrow> char" where
  "lower_char c = (case map_of (zip upper_letters lower_letters) c of Some d \<Rightarrow> d | None \<Rightarrow> c)"

text \<open>The capital of the sharp s (\<open>0xDF\<close>) is the two letters \<^verbatim>\<open>SS\<close>.\<close>

definition upper_char :: "char \<Rightarrow> string" where
  "upper_char c =
     (if c = CHR 0xDF then ''SS''
      else case map_of (zip lower_letters upper_letters) c of Some d \<Rightarrow> [d] | None \<Rightarrow> [c])"

definition toLowerCase :: "string \<Rightarrow> string" where
  "toLowerCase s = map lower_char s"

definition toUpperCase :: "string \<Rightarrow> string" where
  "toUpperCase s = concat (map upper_char s)"

text \<open>\<^verbatim>\<open>s.startsWith(p)\<close> and \<^verbatim>\<open>s.includes(p)\<close>.\<close>

fun startsWith :: "string \<Rightarrow> string \<Rightarrow> bool" where
  "startsWith s [] = True"
| "startsWith [] (p # ps) = False"
| "startsWith (c # s) (p # ps) = (c = p \<and> startsWith s ps)"

fun includes_str :: "string \<Rightarrow> string \<Rightarrow> bool" where
  "includes_str [] p = (p = [])"
| "includes_str (c # s) p = (startsWith (c # s) p \<or> includes_str s p)"

text \<open>\<^verbatim>\<open>s.indexOf(c)\<close> for a single character: \<open>None\<close> is the \<^verbatim>\<open>-1\<close> of the source.\<close>

definition indexOf :: "string \<Rightarrow> char \<Rightarrow> nat option" where
  "indexOf s c = (if c \<in> set s then Some (length (takeWhile (\<lambda>x. x \<noteq> c) s)) else None)"

text \<open>
  \<^verbatim>\<open>s.replace(/pat/g, rep)\<close> for a literal, non-empty pattern: every occurrence, found
  from the left, without overlaps.
\<close>

function replaceAll :: "string \<Rightarrow> string \<Rightarrow> string \<Rightarrow> string" where
  "replaceAll pat rep [] = []"
| "replaceAll pat rep (c # s) =
     (if pat \<noteq> [] \<and> startsWith (c # s) pat
      then rep @ replaceAll pat rep (drop (length pat) (c # s))
      else c # replaceAll pat rep s)"
  by pat_completeness auto
termination
  by (relation "measure (\<lambda>(pat, rep, s). length s)") auto

declare replaceAll.simps(2) [simp del]

text \<open>\<^verbatim>\<open>s.replace(pat, rep)\<close> for a string pattern: the first occurrence only.\<close>

fun replaceFirst :: "string \<Rightarrow> string \<Rightarrow> string \<Rightarrow> string" where
  "replaceFirst pat rep [] = (if pat = [] then rep else [])"
| "replaceFirst pat rep (c # s) =
     (if startsWith (c # s) pat then rep @ drop (length pat) (c # s)
      else c # replaceFirst pat rep s)"

section \<open>Tokenizer\<close>

text \<open>
  The body of a double-quoted run, read from just after the opening quote: the token
  text and the input left after the closing quote. A backslash that is not the last
  character escapes the next one (\<^verbatim>\<open>n\<close>, \<^verbatim>\<open>t\<close>, \<^verbatim>\<open>r\<close> give the control character, any
  other character stands for itself); a run with no closing quote ends at the end of
  the input.
\<close>

definition unescape :: "char \<Rightarrow> char" where
  "unescape c =
     (if c = CHR ''n'' then CHR 0x0A
      else if c = CHR ''t'' then CHR 0x09
      else if c = CHR ''r'' then CHR 0x0D
      else c)"

fun dquoted :: "string \<Rightarrow> string \<times> string" where
  "dquoted [] = ([], [])"
| "dquoted [c] = (if c = DQ then ([], []) else ([c], []))"
| "dquoted (c # d # s) =
     (if c = DQ then ([], d # s)
      else if c = BS then (unescape d # fst (dquoted s), snd (dquoted s))
      else (c # fst (dquoted (d # s)), snd (dquoted (d # s))))"

lemma dquoted_rest_length: "length (snd (dquoted s)) \<le> length s"
  by (induction s rule: dquoted.induct) auto

lemma length_dropWhile_suffix:
  "dropWhile P s = c # r \<Longrightarrow> length r < length s"
  by (metis length_dropWhile_le length_Cons less_eq_Suc_le)

text \<open>The scanning loop of \<^verbatim>\<open>tokenizeCurl\<close>, over the input that is left.\<close>

function scan_tokens :: "string \<Rightarrow> string list" where
  "scan_tokens s =
     (case dropWhile is_space s of
        [] \<Rightarrow> []
      | c # r \<Rightarrow>
          if c = SQ then
            takeWhile (\<lambda>x. x \<noteq> SQ) r # scan_tokens (drop 1 (dropWhile (\<lambda>x. x \<noteq> SQ) r))
          else if c = DQ then
            fst (dquoted r) # scan_tokens (snd (dquoted r))
          else
            takeWhile (\<lambda>x. \<not> is_space x) (c # r)
              # scan_tokens (dropWhile (\<lambda>x. \<not> is_space x) (c # r)))"
  by pat_completeness auto

termination
proof (relation "measure length", goal_cases)
  case 1
  show ?case by simp
next
  case (2 s c r)
  have "length (dropWhile (\<lambda>x. x \<noteq> SQ) r) \<le> length r"
    by (rule length_dropWhile_le)
  with 2(1) show ?case
    by (auto dest!: length_dropWhile_suffix)
next
  case (3 s c r)
  with dquoted_rest_length [of r] show ?case
    by (auto dest!: length_dropWhile_suffix)
next
  case (4 s c r)
  have "dropWhile (\<lambda>x. \<not> is_space x) (c # r) = dropWhile (\<lambda>x. \<not> is_space x) r"
    using 4 by (metis dropWhile.simps(2) hd_dropWhile list.sel(1) list.simps(3))
  moreover have "length (dropWhile (\<lambda>x. \<not> is_space x) r) \<le> length r"
    by (rule length_dropWhile_le)
  ultimately show ?case
    using 4(1) by (auto dest!: length_dropWhile_suffix)
qed

declare scan_tokens.simps [simp del]

definition tokenizeCurl :: "string \<Rightarrow> string list" where
  "tokenizeCurl input =
     scan_tokens
       (replaceAll [BS, CHR 0x0D, CHR 0x0A] '' ''
         (replaceAll [BS, CHR 0x0A] '' '' (trim input)))"

section \<open>The request model\<close>

text \<open>
  \<^verbatim>\<open>headers\<close> is a plain object created by \<^verbatim>\<open>{}\<close> and used as a dictionary. The model
  keeps its own properties as an association list in creation order. An assignment
  \<^verbatim>\<open>headers[k] = v\<close> overwrites the value of an existing property in place and creates a
  new property at the end otherwise, with one exception of the language: the name
  \<^verbatim>\<open>__proto__\<close> is an accessor inherited from \<^verbatim>\<open>Object.prototype\<close>, whose setter ignores
  a string, so that assignment creates no property.
\<close>

type_synonym header_map = "(string \<times> string) list"

definition set_header :: "header_map \<Rightarrow> string \<Rightarrow> string \<Rightarrow> header_map" where
  "set_header h k v = (if k = ''__proto__'' then h else AList.update k v h)"

text \<open>
  A read \<^verbatim>\<open>headers[k]\<close> of a name that is no property of \<^verbatim>\<open>Object.prototype\<close> (the
  source reads \<^verbatim>\<open>Content-Type\<close> and \<^verbatim>\<open>content-type\<close> only): \<open>None\<close> is \<^verbatim>\<open>undefined\<close>.
\<close>

definition get_header :: "header_map \<Rightarrow> string \<Rightarrow> string option" where
  "get_header h k = map_of h k"

text \<open>
  \<^verbatim>\<open>Object.entries\<close> lists the properties whose names are array indices (canonical
  decimal numerals below \<open>2^32 - 1\<close>) first, in ascending numeric order, and the others
  after them in creation order.
\<close>

definition is_digit :: "char \<Rightarrow> bool" where
  "is_digit c = (c \<in> set ''0123456789'')"

definition digit_value :: "char \<Rightarrow> int" where
  "digit_value c = int (length (takeWhile (\<lambda>d. d \<noteq> c) ''0123456789''))"

definition int_of_digits :: "string \<Rightarrow> int" where
  "int_of_digits k = foldl (\<lambda>n c. 10 * n + digit_value c) 0 k"

definition is_array_index :: "string \<Rightarrow> bool" where
  "is_array_index k =
     (k \<noteq> [] \<and> list_all is_digit k \<and> (k = ''0'' \<or> hd k \<noteq> CHR ''0'') \<and>
      int_of_digits k < 4294967295)"

definition Object_entries :: "header_map \<Rightarrow> (string \<times> string) list" where
  "Object_entries h =
     sort_key (\<lambda>e. int_of_digits (fst e)) (filter (\<lambda>e. is_array_index (fst e)) h)
       @ filter (\<lambda>e. \<not> is_array_index (fst e)) h"

record auth_info =
  user :: string
  password :: string

text \<open>The interface \<^verbatim>\<open>ParsedCurl\<close>; its field \<^verbatim>\<open>method\<close> is \<open>http_method\<close> here.\<close>

record ParsedCurl =
  url :: string
  http_method :: string
  headers :: header_map
  body :: "string option"
  auth :: "auth_info option"
  isFormData :: bool
  isJson :: bool

text \<open>The truth value JavaScript gives a \<^verbatim>\<open>string | null\<close>: false for \<^verbatim>\<open>null\<close> and for \<^verbatim>\<open>""\<close>.\<close>

definition truthy :: "string option \<Rightarrow> bool" where
  "truthy b = (case b of None \<Rightarrow> False | Some s \<Rightarrow> s \<noteq> [])"

section \<open>Command parser\<close>

text \<open>The local variables of \<^verbatim>\<open>parseCurl\<close> that its loop updates.\<close>

record curl_vars =
  v_url :: string
  v_method :: string
  v_headers :: header_map
  v_body :: "string option"
  v_auth :: "auth_info option"

definition init_vars :: curl_vars where
  "init_vars = \<lparr>v_url = [], v_method = [], v_headers = [], v_body = None, v_auth = None\<rparr>"

text \<open>
  \<^verbatim>\<open>tokens[++i] ?? ""\<close> over the tokens that follow the flag: the next token, or the
  empty string at the end of the input. The cursor moves past it either way, so the
  loop goes on with \<open>tl rest\<close>.
\<close>

definition next_arg :: "string list \<Rightarrow> string" where
  "next_arg rest = (case rest of [] \<Rightarrow> [] | a # _ \<Rightarrow> a)"

definition is_data_flag :: "string \<Rightarrow> bool" where
  "is_data_flag tok =
     (tok = ''-d'' \<or> tok = ''--data'' \<or> tok = ''--data-raw'' \<or> tok = ''--data-binary'' \<or>
      tok = ''--data-ascii'')"

definition is_ignored_flag :: "string \<Rightarrow> bool" where
  "is_ignored_flag tok =
     (tok = ''--compressed'' \<or> tok = ''-L'' \<or> tok = ''--location'' \<or> tok = ''-k'' \<or>
      tok = ''--insecure'' \<or> tok = ''-s'' \<or> tok = ''--silent'' \<or> tok = ''-v'' \<or>
      tok = ''--verbose'' \<or> tok = ''-i'' \<or> tok = ''--include'')"

definition parse_creds :: "string \<Rightarrow> auth_info" where
  "parse_creds creds =
     (case indexOf creds CHR '':'' of
        Some idx \<Rightarrow> \<lparr>user = take idx creds, password = drop (idx + 1) creds\<rparr>
      | None \<Rightarrow> \<lparr>user = creds, password = []\<rparr>)"

definition add_header_line :: "header_map \<Rightarrow> string \<Rightarrow> header_map" where
  "add_header_line h hdr =
     (case indexOf hdr CHR '':'' of
        Some colon \<Rightarrow> set_header h (trim (take colon hdr)) (trim (drop (colon + 1) hdr))
      | None \<Rightarrow> h)"

text \<open>The \<^verbatim>\<open>for\<close> loop of \<^verbatim>\<open>parseCurl\<close>, over the tokens from the cursor on.\<close>

function parseCurl_loop :: "string list \<Rightarrow> curl_vars \<Rightarrow> curl_vars" where
  "parseCurl_loop [] st = st"
| "parseCurl_loop (tok # rest) st =
     (if tok = ''-X'' \<or> tok = ''--request'' then
        parseCurl_loop (tl rest)
          (st\<lparr>v_method := (case rest of [] \<Rightarrow> [] | a # _ \<Rightarrow> toUpperCase a)\<rparr>)
      else if tok = ''-H'' \<or> tok = ''--header'' then
        parseCurl_loop (tl rest) (st\<lparr>v_headers := add_header_line (v_headers st) (next_arg rest)\<rparr>)
      else if is_data_flag tok then
        parseCurl_loop (tl rest) (st\<lparr>v_body := Some (next_arg rest)\<rparr>)
      else if tok = ''-u'' \<or> tok = ''--user'' then
        parseCurl_loop (tl rest) (st\<lparr>v_auth := Some (parse_creds (next_arg rest))\<rparr>)
      else if tok = ''--json'' then
        parseCurl_loop (tl rest)
          (st\<lparr>v_body := Some (next_arg rest),
              v_headers :=
                set_header (set_header (v_headers st) ''Content-Type'' ''application/json'')
                  ''Accept'' ''application/json''\<rparr>)
      else if tok = ''--form'' \<or> tok = ''-F'' then
        (if truthy (v_body st) then parseCurl_loop (tl rest) st
         else parseCurl_loop (tl rest) (st\<lparr>v_body := Some (next_arg rest)\<rparr>))
      else if is_ignored_flag tok then
        parseCurl_loop rest st
      else if tok = ''-b'' \<or> tok = ''--cookie'' then
        parseCurl_loop (tl rest)
          (st\<lparr>v_headers := set_header (v_headers st) ''Cookie'' (next_arg rest)\<rparr>)
      else if tok = ''-A'' \<or> tok = ''--user-agent'' then
        parseCurl_loop (tl rest)
          (st\<lparr>v_headers := set_header (v_headers st) ''User-Agent'' (next_arg rest)\<rparr>)
      else if tok = ''-e'' \<or> tok = ''--referer'' then
        parseCurl_loop (tl rest)
          (st\<lparr>v_headers := set_header (v_headers st) ''Referer'' (next_arg rest)\<rparr>)
      else if startsWith tok ''-'' then
        parseCurl_loop rest st
      else
        parseCurl_loop rest (if v_url st = [] then st\<lparr>v_url := tok\<rparr> else st))"
  by pat_completeness auto
termination
  by (relation "measure (\<lambda>(toks, st). length toks)") auto

declare parseCurl_loop.simps [simp del]

datatype js_error = TypeError

text \<open>
  \<^verbatim>\<open>headers["Content-Type"] || headers["content-type"] || ""\<close>: the first of the two
  that is stored and not empty.
\<close>

definition or_else :: "string option \<Rightarrow> string \<Rightarrow> string" where
  "or_else a b = (case a of None \<Rightarrow> b | Some s \<Rightarrow> if s = [] then b else s)"

definition content_type :: "header_map \<Rightarrow> string" where
  "content_type h =
     or_else (get_header h ''Content-Type'') (or_else (get_header h ''content-type'') [])"

definition body_starts_with :: "string option \<Rightarrow> string \<Rightarrow> bool" where
  "body_starts_with b p = (case b of None \<Rightarrow> False | Some s \<Rightarrow> startsWith (trimStart s) p)"

text \<open>
  \<^verbatim>\<open>parseCurl\<close>. \<open>Inr None\<close> is the \<^verbatim>\<open>null\<close> it returns; \<open>Inl TypeError\<close> is the exception
  that \<^verbatim>\<open>tokens[0].toLowerCase()\<close> raises on an empty token array.
\<close>

definition parseCurl :: "string \<Rightarrow> js_error + ParsedCurl option" where
  "parseCurl raw =
     (let tokens = tokenizeCurl raw in
      if tokens = [] then Inr None
      else
        case tokens of
          [] \<Rightarrow> Inl TypeError
        | t0 # rest \<Rightarrow>
            if toLowerCase t0 \<noteq> ''curl'' then Inr None
            else
              let st = parseCurl_loop rest init_vars in
              if v_url st = [] then Inr None
              else
                let m = (if v_method st = []
                         then (if truthy (v_body st) then ''POST'' else ''GET'')
                         else v_method st);
                    contentType = content_type (v_headers st)
                in Inr (Some
                     \<lparr>url = v_url st,
                      http_method = m,
                      headers = v_headers st,
                      body = v_body st,
                      auth = v_auth st,
                      isFormData = includes_str contentType ''application/x-www-form-urlencoded'',
                      isJson =
                        (includes_str contentType ''application/json'' \<or>
                         body_starts_with (v_body st) ''{'' \<or>
                         body_starts_with (v_body st) ''['')\<rparr>))"

text \<open>Facts that evaluate the parser on a concrete input.\<close>

lemmas eval_strings =
  SQ_def DQ_def BS_def is_space_def trimStart_def trim_def upper_letters_def
  lower_letters_def lower_char_def upper_char_def toLowerCase_def toUpperCase_def indexOf_def unescape_def replaceAll.simps(2)

lemmas eval_parser =
  eval_strings tokenizeCurl_def scan_tokens.simps set_header_def get_header_def truthy_def
  init_vars_def next_arg_def is_data_flag_def is_ignored_flag_def parse_creds_def
  add_header_line_def parseCurl_loop.simps or_else_def content_type_def body_starts_with_def
  parseCurl_def

section \<open>Code generators\<close>

text \<open>
  The generators call three library functions whose code is not part of the converter.
  They are parameters of the model:
  \<^item> \<open>JSON_reformat n s\<close> is \<^verbatim>\<open>JSON.stringify(JSON.parse(s), null, n)\<close>, and \<open>None\<close> when
    \<^verbatim>\<open>JSON.parse\<close> throws;
  \<^item> \<open>base64 s\<close> is \<^verbatim>\<open>Buffer.from(s).toString("base64")\<close>;
  \<^item> \<open>new_URL s\<close> is the object \<^verbatim>\<open>new URL(s)\<close> builds, and \<open>None\<close> when the constructor
    throws.
\<close>

record url_obj =
  protocol :: string
  hostname :: string
  port :: string
  pathname :: string
  search :: string

record runtime =
  JSON_reformat :: "nat \<Rightarrow> string \<Rightarrow> string option"
  base64 :: "string \<Rightarrow> string"
  new_URL :: "string \<Rightarrow> url_obj option"

text \<open>
  \<^verbatim>\<open>JSON.stringify\<close> of a string: the text between double quotes, with the quote, the
  backslash and the control characters escaped.
\<close>

definition hex_digit :: "nat \<Rightarrow> char" where
  "hex_digit n = ''0123456789abcdef'' ! (n mod 16)"

definition json_escape :: "char \<Rightarrow> string" where
  "json_escape c =
     (if c = DQ then [BS, DQ]
      else if c = BS then [BS, BS]
      else if c = CHR 0x08 then [BS, CHR ''b'']
      else if c = CHR 0x0C then [BS, CHR ''f'']
      else if c = CHR 0x0A then [BS, CHR ''n'']
      else if c = CHR 0x0D then [BS, CHR ''r'']
      else if c = CHR 0x09 then [BS, CHR ''t'']
      else if (of_char c :: nat) < 32 then
        [BS, CHR ''u'', CHR ''0'', CHR ''0'', hex_digit (of_char c div 16), hex_digit (of_char c)]
      else [c])"

definition jsStringify :: "string \<Rightarrow> string" where
  "jsStringify val = DQ # concat (map json_escape val) @ [DQ]"

definition indent :: "nat \<Rightarrow> string" where
  "indent n = concat (replicate n ''  '')"

text \<open>\<^verbatim>\<open>lines.join("\n")\<close>.\<close>

fun join_lines :: "string list \<Rightarrow> string" where
  "join_lines [] = []"
| "join_lines [l] = l"
| "join_lines (l # m # ls) = l @ CHR 0x0A # join_lines (m # ls)"

definition TAB :: string where
  "TAB = [CHR 0x09]"

text \<open>The header entries the fetch and Node.js generators render: the stored headers first.\<close>

definition basic_auth_entry :: "runtime \<Rightarrow> auth_info \<Rightarrow> string \<times> string" where
  "basic_auth_entry rt a =
     (''Authorization'', ''Basic '' @ base64 rt (user a @ '':'' @ password a))"

definition header_line :: "nat \<Rightarrow> string \<times> string \<Rightarrow> string" where
  "header_line n e = indent n @ jsStringify (fst e) @ '': '' @ jsStringify (snd e) @ '',''"

text \<open>
  \<^verbatim>\<open>JSON.stringify(parsed, null, 2).split("\n").join("\n" + indent(1))\<close> on the text the
  library printed.
\<close>

definition reindent :: "string \<Rightarrow> string" where
  "reindent t = replaceAll [CHR 0x0A] (CHR 0x0A # indent 1) t"

definition generateJsFetch_lines :: "runtime \<Rightarrow> ParsedCurl \<Rightarrow> string list" where
  "generateJsFetch_lines rt p =
     (let headerEntries =
            Object_entries (headers p)
              @ (case auth p of None \<Rightarrow> [] | Some a \<Rightarrow> [basic_auth_entry rt a]);
          options =
            (if http_method p \<noteq> ''GET'' then [indent 1 @ ''method: '' @ jsStringify (http_method p) @ '',''] else [])
            @ (if headerEntries \<noteq> []
               then [indent 1 @ ''headers: {''] @ map (header_line 2) headerEntries @ [indent 1 @ ''},'']
               else [])
            @ (case body p of
                 None \<Rightarrow> []
               | Some b \<Rightarrow>
                   (if isJson p then
                      (case JSON_reformat rt 2 b of
                         Some t \<Rightarrow> [indent 1 @ ''body: JSON.stringify('' @ reindent t @ ''),'']
                       | None \<Rightarrow> [indent 1 @ ''body: '' @ jsStringify b @ '',''])
                    else [indent 1 @ ''body: '' @ jsStringify b @ '','']))
      in [''const response = await fetch('' @ jsStringify (url p) @ '', {'']
         @ options
         @ [''});'', ''const data = await response.json();'', ''console.log(data);''])"

definition generateJsFetch :: "runtime \<Rightarrow> ParsedCurl \<Rightarrow> string" where
  "generateJsFetch rt p = join_lines (generateJsFetch_lines rt p)"

definition generateJsAxios_lines :: "runtime \<Rightarrow> ParsedCurl \<Rightarrow> string list" where
  "generateJsAxios_lines rt p =
     (let headerEntries = Object_entries (headers p);
          configParts =
            [indent 1 @ ''method: '' @ jsStringify (toLowerCase (http_method p)) @ '','',
             indent 1 @ ''url: '' @ jsStringify (url p) @ '','']
            @ (case auth p of
                 None \<Rightarrow> []
               | Some a \<Rightarrow>
                   [indent 1 @ ''auth: {'',
                    indent 2 @ ''username: '' @ jsStringify (user a) @ '','',
                    indent 2 @ ''password: '' @ jsStringify (password a) @ '','',
                    indent 1 @ ''},''])
            @ (if headerEntries \<noteq> []
               then [indent 1 @ ''headers: {''] @ map (header_line 2) headerEntries @ [indent 1 @ ''},'']
               else [])
            @ (case body p of
                 None \<Rightarrow> []
               | Some b \<Rightarrow>
                   (if isJson p then
                      (case JSON_reformat rt 2 b of
                         Some t \<Rightarrow> [indent 1 @ ''data: '' @ reindent t @ '','']
                       | None \<Rightarrow> [indent 1 @ ''data: '' @ jsStringify b @ '',''])
                    else [indent 1 @ ''data: '' @ jsStringify b @ '','']))
      in (case auth p of None \<Rightarrow> [] | Some a \<Rightarrow> [''// Axios handles basic auth natively:''])
         @ [''import axios from '' @ [SQ] @ ''axios'' @ [SQ] @ '';'', [], ''const response = await axios({'']
         @ configParts
         @ [''});'', ''console.log(response.data);''])"

definition generateJsAxios :: "runtime \<Rightarrow> ParsedCurl \<Rightarrow> string" where
  "generateJsAxios rt p = join_lines (generateJsAxios_lines rt p)"

text \<open>The Python literal made from the text the library printed.\<close>

definition pyJson :: "string \<Rightarrow> string" where
  "pyJson t =
     replaceAll '': false'' '': False''
       (replaceAll '': true'' '': True'' (replaceAll '': null'' '': None'' t))"

definition join_args :: "string list \<Rightarrow> string" where
  "join_args args = concat (case args of [] \<Rightarrow> [] | a # as \<Rightarrow> a # map (\<lambda>x. '', '' @ x) as)"

definition generatePythonRequests_lines :: "runtime \<Rightarrow> ParsedCurl \<Rightarrow> string list" where
  "generatePythonRequests_lines rt p =
     (let headerEntries = Object_entries (headers p);
          headerLines =
            (if headerEntries \<noteq> []
             then [''headers = {'']
                  @ map (\<lambda>e. ''    '' @ jsStringify (fst e) @ '': '' @ jsStringify (snd e) @ '','') headerEntries
                  @ [''}'', []]
             else []);
          bodyLines =
            (case body p of
               None \<Rightarrow> []
             | Some b \<Rightarrow>
                 (if isJson p then
                    [(case JSON_reformat rt 4 b of
                        Some t \<Rightarrow> ''payload = '' @ pyJson t
                      | None \<Rightarrow> ''payload = '' @ jsStringify b),
                     []]
                  else if isFormData p then [''data = '' @ jsStringify b, []]
                  else [''data = '' @ jsStringify b, []]));
          args =
            [''url'']
            @ (if headerEntries \<noteq> [] then [''headers=headers''] else [])
            @ (case auth p of
                 None \<Rightarrow> []
               | Some a \<Rightarrow> [''auth=('' @ jsStringify (user a) @ '', '' @ jsStringify (password a) @ '')''])
            @ (case body p of
                 None \<Rightarrow> []
               | Some b \<Rightarrow>
                   (if isJson p then [''json=payload'']
                    else if isFormData p then [''data=data'']
                    else [''data=data'']))
      in [''import requests'', []]
         @ headerLines
         @ bodyLines
         @ [''url = '' @ jsStringify (url p),
            [],
            ''response = requests.'' @ toLowerCase (http_method p) @ ''('' @ join_args args @ '')'',
            ''print(response.json())''])"

definition generatePythonRequests :: "runtime \<Rightarrow> ParsedCurl \<Rightarrow> string" where
  "generatePythonRequests rt p = join_lines (generatePythonRequests_lines rt p)"

text \<open>
  The body text of the Go and Node.js generators: the library's two-space print of a
  body classified as JSON, the body itself when it does not parse or is not JSON.
\<close>

definition bodyStr :: "runtime \<Rightarrow> ParsedCurl \<Rightarrow> string \<Rightarrow> string" where
  "bodyStr rt p b =
     (if isJson p then (case JSON_reformat rt 2 b of Some t \<Rightarrow> t | None \<Rightarrow> b) else b)"

definition generateGo_lines :: "runtime \<Rightarrow> ParsedCurl \<Rightarrow> string list" where
  "generateGo_lines rt p =
     [''package main'', [], ''import ('', TAB @ [DQ] @ ''fmt'' @ [DQ]]
     @ (if truthy (body p) then [TAB @ [DQ] @ ''strings'' @ [DQ]] else [])
     @ [TAB @ [DQ] @ ''net/http'' @ [DQ], TAB @ [DQ] @ ''io'' @ [DQ], '')'', [],
        ''func main() {'', TAB @ ''url := '' @ jsStringify (url p), []]
     @ (case body p of
          None \<Rightarrow> [TAB @ ''req, err := http.NewRequest('' @ jsStringify (http_method p) @ '', url, nil)'']
        | Some b \<Rightarrow>
            (if b \<noteq> [] then
               [TAB @ ''body := strings.NewReader('' @ jsStringify (bodyStr rt p b) @ '')'',
                TAB @ ''req, err := http.NewRequest('' @ jsStringify (http_method p) @ '', url, body)'']
             else
               [TAB @ ''req, err := http.NewRequest('' @ jsStringify (http_method p) @ '', url, nil)'']))
     @ [TAB @ ''if err != nil {'', TAB @ TAB @ ''panic(err)'', TAB @ ''}'', []]
     @ map (\<lambda>e. TAB @ ''req.Header.Set('' @ jsStringify (fst e) @ '', '' @ jsStringify (snd e) @ '')'')
         (Object_entries (headers p))
     @ (case auth p of
          None \<Rightarrow> []
        | Some a \<Rightarrow>
            [TAB @ ''req.SetBasicAuth('' @ jsStringify (user a) @ '', '' @ jsStringify (password a) @ '')''])
     @ [[], TAB @ ''client := &http.Client{}'', TAB @ ''resp, err := client.Do(req)'',
        TAB @ ''if err != nil {'', TAB @ TAB @ ''panic(err)'', TAB @ ''}'',
        TAB @ ''defer resp.Body.Close()'', [],
        TAB @ ''body2, _ := io.ReadAll(resp.Body)'', TAB @ ''fmt.Println(string(body2))'', ''}'']"

definition generateGo :: "runtime \<Rightarrow> ParsedCurl \<Rightarrow> string" where
  "generateGo rt p = join_lines (generateGo_lines rt p)"

text \<open>
  The Node.js generator. Its header entries are the stored headers, then the computed
  \<^verbatim>\<open>Content-Length\<close> entry, then the \<^verbatim>\<open>Authorization\<close> entry; an entry whose name is
  \<^verbatim>\<open>Content-Length\<close> is printed with its value unquoted.
\<close>

definition node_header_line :: "string \<times> string \<Rightarrow> string" where
  "node_header_line e =
     (if fst e = ''Content-Length''
      then ''    '' @ jsStringify (fst e) @ '': '' @ snd e @ '',''
      else ''    '' @ jsStringify (fst e) @ '': '' @ jsStringify (snd e) @ '','')"

definition node_header_entries :: "runtime \<Rightarrow> ParsedCurl \<Rightarrow> (string \<times> string) list" where
  "node_header_entries rt p =
     Object_entries (headers p)
     @ (if truthy (body p) then [(''Content-Length'', ''Buffer.byteLength(postData)'')] else [])
     @ (case auth p of None \<Rightarrow> [] | Some a \<Rightarrow> [basic_auth_entry rt a])"

definition port_shown :: "string \<Rightarrow> string \<Rightarrow> bool" where
  "port_shown proto prt =
     ((proto = ''https'' \<and> prt \<noteq> ''443'') \<or> (proto = ''http'' \<and> prt \<noteq> ''80''))"

definition generateNodeJs_lines :: "runtime \<Rightarrow> ParsedCurl \<Rightarrow> string list" where
  "generateNodeJs_lines rt p =
     (case new_URL rt (url p) of
        None \<Rightarrow>
          [''// Could not fully parse the URL: '' @ url p,
           ''// Please adjust hostname, path and port below.'',
           ''const https = require('' @ [SQ] @ ''https'' @ [SQ] @ '');'',
           ''// ... (manual setup required)'']
      | Some urlObj \<Rightarrow>
          (let proto = replaceFirst '':'' [] (protocol urlObj);
               prt = (if port urlObj \<noteq> [] then port urlObj
                      else if proto = ''https'' then ''443'' else ''80'');
               path = pathname urlObj @ search urlObj;
               headerEntries = node_header_entries rt p
           in [''const '' @ proto @ '' = require('' @ [SQ] @ proto @ [SQ] @ '');'', []]
              @ (case body p of
                   None \<Rightarrow> []
                 | Some b \<Rightarrow>
                     (if b \<noteq> [] then [''const postData = '' @ jsStringify (bodyStr rt p b) @ '';'', []]
                      else []))
              @ [''const options = {'', ''  hostname: '' @ jsStringify (hostname urlObj) @ '','']
              @ (if port_shown proto prt then [''  port: '' @ prt @ '',''] else [])
              @ [''  path: '' @ jsStringify (if path \<noteq> [] then path else ''/'') @ '','',
                 ''  method: '' @ jsStringify (http_method p) @ '','']
              @ (if headerEntries \<noteq> []
                 then [''  headers: {''] @ map node_header_line headerEntries @ [''  },'']
                 else [])
              @ [''};'', [],
                 ''const req = '' @ proto @ ''.request(options, (res) => {'',
                 ''  let data = '' @ [SQ, SQ] @ '';'',
                 ''  res.on('' @ [SQ] @ ''data'' @ [SQ] @ '', (chunk) => { data += chunk; });'',
                 ''  res.on('' @ [SQ] @ ''end'' @ [SQ] @ '', () => { console.log(JSON.parse(data)); });'',
                 ''});'', [],
                 ''req.on('' @ [SQ] @ ''error'' @ [SQ] @ '', (e) => { console.error(e); });'']
              @ (if truthy (body p) then [''req.write(postData);''] else [])
              @ [''req.end();'']))"

definition generateNodeJs :: "runtime \<Rightarrow> ParsedCurl \<Rightarrow> string" where
  "generateNodeJs rt p = join_lines (generateNodeJs_lines rt p)"

datatype Language = js_fetch | js_axios | python_requests | go | nodejs

fun generateCode :: "runtime \<Rightarrow> ParsedCurl \<Rightarrow> Language \<Rightarrow> string" where
  "generateCode rt parsed js_fetch = generateJsFetch rt parsed"
| "generateCode rt parsed js_axios = generateJsAxios rt parsed"
| "generateCode rt parsed python_requests = generatePythonRequests rt parsed"
| "generateCode rt parsed go = generateGo rt parsed"
| "generateCode rt parsed nodejs = generateNodeJs rt parsed"

lemmas eval_generators =
  Object_entries_def is_array_index_def is_digit_def int_of_digits_def digit_value_def
  hex_digit_def json_escape_def jsStringify_def indent_def TAB_def basic_auth_entry_def
  header_line_def reindent_def pyJson_def join_args_def bodyStr_def node_header_line_def
  node_header_entries_def port_shown_def truthy_def SQ_def DQ_def BS_def toLowerCase_def
  lower_char_def upper_letters_def lower_letters_def

section \<open>Notions of the specification\<close>

text \<open>The first character of a string that is not white space, if there is one.\<close>

definition first_nonspace :: "string \<Rightarrow> char option" where
  "first_nonspace s = (case dropWhile is_space s of [] \<Rightarrow> None | c # _ \<Rightarrow> Some c)"

text \<open>A body whose first character that is not white space is an opening brace or bracket.\<close>

definition json_shaped :: "string option \<Rightarrow> bool" where
  "json_shaped b =
     (case b of
        None \<Rightarrow> False
      | Some s \<Rightarrow> first_nonspace s = Some CHR ''{'' \<or> first_nonspace s = Some CHR ''['')"

text \<open>
  A string contains a text when the text is a prefix of one of its tails (see
  \<open>contains_text_iff\<close> below).
\<close>

fun tails_of :: "string \<Rightarrow> string list" where
  "tails_of [] = [[]]"
| "tails_of (c # s) = (c # s) # tails_of s"

definition contains_text :: "string \<Rightarrow> string \<Rightarrow> bool" where
  "contains_text s p = list_ex (\<lambda>t. take (length p) t = p) (tails_of s)"

text \<open>The value stored under exactly this name, and the empty string when there is none.\<close>

definition stored_value :: "header_map \<Rightarrow> string \<Rightarrow> string" where
  "stored_value h name = (case map_of h name of None \<Rightarrow> [] | Some v \<Rightarrow> v)"

text \<open>
  The effective content type of a request: the value stored under \<^verbatim>\<open>Content-Type\<close> when
  one is stored and it is not empty, and otherwise the value stored under
  \<^verbatim>\<open>content-type\<close>.
\<close>

definition effective_content_type :: "header_map \<Rightarrow> string" where
  "effective_content_type h =
     (if stored_value h ''Content-Type'' \<noteq> [] then stored_value h ''Content-Type''
      else stored_value h ''content-type'')"

text \<open>A header stored under exactly this name whose value contains the media type.\<close>

definition stored_under :: "header_map \<Rightarrow> string \<Rightarrow> string \<Rightarrow> bool" where
  "stored_under h name mt = (case get_header h name of None \<Rightarrow> False | Some v \<Rightarrow> includes_str v mt)"

text \<open>
  The flag table of the specification: the flags that consume the token after them.
  Every other token that starts with a dash is a flag without an argument (recognised or
  not), and a token that does not start with a dash is positional.
\<close>

definition takes_argument :: "string \<Rightarrow> bool" where
  "takes_argument tok =
     (tok = ''-X'' \<or> tok = ''--request'' \<or> tok = ''-H'' \<or> tok = ''--header'' \<or>
      is_data_flag tok \<or> tok = ''-u'' \<or> tok = ''--user'' \<or> tok = ''--json'' \<or>
      tok = ''--form'' \<or> tok = ''-F'' \<or> tok = ''-b'' \<or> tok = ''--cookie'' \<or>
      tok = ''-A'' \<or> tok = ''--user-agent'' \<or> tok = ''-e'' \<or> tok = ''--referer'')"

text \<open>
  The positional tokens of an argument list: the tokens that do not start with a dash and
  are not the argument of a flag of the table.
\<close>

fun positional_args :: "string list \<Rightarrow> string list" where
  "positional_args [] = []"
| "positional_args [tok] = (if startsWith tok ''-'' then [] else [tok])"
| "positional_args (tok # a # rest) =
     (if takes_argument tok then positional_args rest
      else if startsWith tok ''-'' then positional_args (a # rest)
      else tok # positional_args (a # rest))"

text \<open>The first positional token that is not empty, and \<open>[]\<close> when there is none.\<close>

definition first_url :: "string list \<Rightarrow> string" where
  "first_url toks =
     (case filter (\<lambda>t. t \<noteq> []) (positional_args toks) of [] \<Rightarrow> [] | u # _ \<Rightarrow> u)"

text \<open>The input starts with the command keyword: its first token is \<^verbatim>\<open>curl\<close> in any case.\<close>

definition command_keyword :: "string \<Rightarrow> bool" where
  "command_keyword raw = (case tokenizeCurl raw of [] \<Rightarrow> False | t0 # _ \<Rightarrow> toLowerCase t0 = ''curl'')"

text \<open>The tokens after the first that do not start with a dash.\<close>

definition non_flag_tokens :: "string \<Rightarrow> string list" where
  "non_flag_tokens raw = filter (\<lambda>t. \<not> startsWith t ''-'') (tl (tokenizeCurl raw))"

text \<open>The positional tokens of the input that are not empty.\<close>

definition url_tokens :: "string \<Rightarrow> string list" where
  "url_tokens raw = filter (\<lambda>t. t \<noteq> []) (positional_args (tl (tokenizeCurl raw)))"

text \<open>The URL of the request \<^verbatim>\<open>parseCurl\<close> returns, if it returns one.\<close>

definition parsed_url :: "string \<Rightarrow> string option" where
  "parsed_url raw = (case parseCurl raw of Inr (Some r) \<Rightarrow> Some (url r) | _ \<Rightarrow> None)"

text \<open>
  The request \<^verbatim>\<open>parseCurl\<close> returns for \<^verbatim>\<open>curl -d '' http://x\<close>, a command that posts
  an empty body.
\<close>

definition empty_body_request :: ParsedCurl where
  "empty_body_request =
     \<lparr>url = ''http://x'', http_method = ''GET'', headers = [], body = Some [], auth = None,
      isFormData = False, isJson = False\<rparr>"

section \<open>Strings\<close>

text \<open>Case conversion on letters inside and outside ASCII.\<close>

lemma case_conversion_examples:
  "toUpperCase (''post'' @ [CHR 0xE9, CHR 0xDF, CHR 0xF7]) = ''POST'' @ [CHR 0xC9] @ ''SS'' @ [CHR 0xF7]"
  "toLowerCase (''CuRl'' @ [CHR 0xC9, CHR 0xD7]) = ''curl'' @ [CHR 0xE9, CHR 0xD7]"
  by (simp_all add: eval_strings)

lemma startsWith_take: "startsWith s p = (take (length p) s = p)"
  by (induction s p rule: startsWith.induct) auto

lemma startsWith_append: "startsWith s p = (\<exists>r. s = p @ r)"
  unfolding startsWith_take
  by (metis append_eq_conv_conj append_take_drop_id)

text \<open>\<open>includes_str\<close> is containment of a contiguous substring.\<close>

lemma includes_str_iff: "includes_str s p = (\<exists>a b. s = a @ p @ b)"
proof (induction s)
  case Nil
  then show ?case by auto
next
  case (Cons c s)
  show ?case
  proof
    assume "includes_str (c # s) p"
    then consider "startsWith (c # s) p" | "includes_str s p" by auto
    then show "\<exists>a b. c # s = a @ p @ b"
    proof cases
      case 1
      then obtain r where "c # s = p @ r" unfolding startsWith_append by blast
      then have "c # s = [] @ p @ r" by simp
      then show ?thesis by blast
    next
      case 2
      then obtain a b where "s = a @ p @ b" using Cons.IH by blast
      then have "c # s = (c # a) @ p @ b" by simp
      then show ?thesis by blast
    qed
  next
    assume "\<exists>a b. c # s = a @ p @ b"
    then obtain a b where ab: "c # s = a @ p @ b" by blast
    show "includes_str (c # s) p"
    proof (cases a)
      case Nil
      with ab have "startsWith (c # s) p" unfolding startsWith_append by auto
      then show ?thesis by simp
    next
      case (Cons a0 a')
      with ab have "s = a' @ p @ b" by simp
      then have "includes_str s p" using Cons.IH by blast
      then show ?thesis by simp
    qed
  qed
qed

lemma set_tails_of: "t \<in> set (tails_of s) \<longleftrightarrow> (\<exists>a. s = a @ t)"
proof (induction s)
  case Nil
  show ?case by simp
next
  case (Cons c s)
  show ?case
  proof
    assume "t \<in> set (tails_of (c # s))"
    then consider "t = c # s" | "t \<in> set (tails_of s)" by auto
    then show "\<exists>a. c # s = a @ t"
    proof cases
      case 1
      then have "c # s = [] @ t" by simp
      then show ?thesis by blast
    next
      case 2
      then obtain a where "s = a @ t" using Cons.IH by blast
      then have "c # s = (c # a) @ t" by simp
      then show ?thesis by blast
    qed
  next
    assume "\<exists>a. c # s = a @ t"
    then obtain a where a: "c # s = a @ t" by blast
    show "t \<in> set (tails_of (c # s))"
    proof (cases a)
      case Nil
      with a have "t = c # s" by simp
      then show ?thesis by simp
    next
      case (Cons a0 a')
      with a have "s = a' @ t" by simp
      then have "t \<in> set (tails_of s)" using Cons.IH by blast
      then show ?thesis by simp
    qed
  qed
qed

text \<open>\<open>contains_text\<close> is containment of a contiguous substring.\<close>

lemma contains_text_iff: "contains_text s p = (\<exists>a b. s = a @ p @ b)"
proof
  assume "contains_text s p"
  then obtain t where t: "t \<in> set (tails_of s)" and p: "take (length p) t = p"
    unfolding contains_text_def list_ex_iff by blast
  from t obtain a where a: "s = a @ t" unfolding set_tails_of by blast
  have "t = p @ drop (length p) t" using p by (metis append_take_drop_id)
  with a have "s = a @ p @ drop (length p) t" by simp
  then show "\<exists>a b. s = a @ p @ b" by blast
next
  assume "\<exists>a b. s = a @ p @ b"
  then obtain a b where ab: "s = a @ p @ b" by blast
  then have "p @ b \<in> set (tails_of s)" unfolding set_tails_of by blast
  moreover have "take (length p) (p @ b) = p" by simp
  ultimately show "contains_text s p" unfolding contains_text_def list_ex_iff by blast
qed

text \<open>The source's \<^verbatim>\<open>includes\<close> decides it.\<close>

lemma includes_str_contains_text: "includes_str s p = contains_text s p"
  unfolding includes_str_iff contains_text_iff ..

lemma body_starts_with_char:
  "body_starts_with b [c] = (\<exists>s. b = Some s \<and> first_nonspace s = Some c)"
proof (cases b)
  case None
  then show ?thesis by (simp add: body_starts_with_def)
next
  case (Some s)
  show ?thesis
    by (cases "dropWhile is_space s")
      (simp_all add: Some body_starts_with_def first_nonspace_def trimStart_def
         del: dropWhile_eq_Nil_conv)
qed

lemma replaceAll_match:
  "pat \<noteq> [] \<Longrightarrow> startsWith (c # s) pat \<Longrightarrow>
   replaceAll pat rep (c # s) = rep @ replaceAll pat rep (drop (length pat) (c # s))"
  by (simp add: replaceAll.simps(2))

lemma replaceAll_skip:
  "\<not> (pat \<noteq> [] \<and> startsWith (c # s) pat) \<Longrightarrow>
   replaceAll pat rep (c # s) = c # replaceAll pat rep s"
  by (subst replaceAll.simps(2)) (simp only: if_False)

text \<open>
  A replacement whose pattern ends in a character other than the last one of the
  string leaves that last character in place.
\<close>

lemma replaceAll_last:
  assumes "s \<noteq> []" and "pat \<noteq> []" and "last pat \<noteq> last s"
  shows "replaceAll pat rep s \<noteq> [] \<and> last (replaceAll pat rep s) = last s"
  using assms
proof (induction pat rep s rule: replaceAll.induct)
  case (1 pat rep)
  then show ?case by simp
next
  case (2 pat rep c s)
  note pat = \<open>pat \<noteq> []\<close> and diff = \<open>last pat \<noteq> last (c # s)\<close>
  show ?case
  proof (cases "pat \<noteq> [] \<and> startsWith (c # s) pat")
    case True
    then obtain r where r: "c # s = pat @ r" unfolding startsWith_append by blast
    have rne: "r \<noteq> []"
    proof
      assume "r = []"
      with r have "c # s = pat" by simp
      with diff show False by simp
    qed
    have l: "last r = last (c # s)" using r rne by (metis last_appendR)
    have d: "drop (length pat) (c # s) = r" using r by (metis append_eq_conv_conj)
    have "replaceAll pat rep (drop (length pat) (c # s)) \<noteq> [] \<and>
          last (replaceAll pat rep (drop (length pat) (c # s))) = last (drop (length pat) (c # s))"
    proof (rule "2.IH"(1) [OF True])
      show "drop (length pat) (c # s) \<noteq> []" using d rne by simp
      show "pat \<noteq> []" by (rule pat)
      show "last pat \<noteq> last (drop (length pat) (c # s))" using d l diff by simp
    qed
    moreover have "replaceAll pat rep (c # s) = rep @ replaceAll pat rep (drop (length pat) (c # s))"
      using True by (intro replaceAll_match) simp_all
    ultimately show ?thesis using d l by simp
  next
    case False
    have step: "replaceAll pat rep (c # s) = c # replaceAll pat rep s"
      using False by (rule replaceAll_skip)
    show ?thesis
    proof (cases s)
      case Nil
      then show ?thesis unfolding step by simp
    next
      case (Cons d s')
      have "replaceAll pat rep s \<noteq> [] \<and> last (replaceAll pat rep s) = last s"
      proof (rule "2.IH"(2) [OF False])
        show "s \<noteq> []" using Cons by simp
        show "pat \<noteq> []" by (rule pat)
        show "last pat \<noteq> last s" using diff Cons by simp
      qed
      then show ?thesis unfolding step using Cons by simp
    qed
  qed
qed

lemma trim_Nil_iff: "trim s = [] \<longleftrightarrow> list_all is_space s"
proof
  assume "trim s = []"
  then have all: "\<forall>x\<in>set (dropWhile is_space s). is_space x"
    by (simp add: trim_def)
  have "dropWhile is_space s = []"
  proof (rule ccontr)
    assume ne: "dropWhile is_space s \<noteq> []"
    then have "\<not> is_space (hd (dropWhile is_space s))" by (rule hd_dropWhile)
    moreover have "hd (dropWhile is_space s) \<in> set (dropWhile is_space s)"
      using ne by (rule hd_in_set)
    ultimately show False using all by blast
  qed
  then show "list_all is_space s" by (simp add: list_all_iff)
next
  assume "list_all is_space s"
  then have d: "dropWhile is_space s = []" by (simp add: list_all_iff)
  show "trim s = []" unfolding trim_def d by simp
qed

lemma trim_last:
  assumes "trim s \<noteq> []"
  shows "\<not> is_space (last (trim s))"
proof -
  let ?e = "dropWhile is_space (rev (dropWhile is_space s))"
  have e: "?e \<noteq> []" using assms by (simp add: trim_def del: dropWhile_eq_Nil_conv)
  have "last (trim s) = hd ?e" using e by (simp add: trim_def last_rev del: dropWhile_eq_Nil_conv)
  with hd_dropWhile [OF e] show ?thesis by simp
qed

section \<open>Properties of the tokenizer\<close>

lemma scan_tokens_Nil_iff: "scan_tokens s = [] \<longleftrightarrow> list_all is_space s"
proof (cases "dropWhile is_space s")
  case Nil
  then show ?thesis
    by (subst scan_tokens.simps) (simp add: list_all_iff del: dropWhile_eq_Nil_conv, simp)
next
  case (Cons c r)
  then have "\<not> list_all is_space s"
    by (metis dropWhile_eq_Nil_conv list.distinct(1) list_all_iff)
  moreover have "scan_tokens s \<noteq> []"
    by (subst scan_tokens.simps) (simp add: Cons del: dropWhile_eq_Nil_conv)
  ultimately show ?thesis by simp
qed

lemma is_space_LF: "is_space (CHR 0x0A)"
  by (simp add: is_space_def)

text \<open>The tokenizer returns no token exactly for the empty and the white-space-only inputs.\<close>

lemma tokenizeCurl_Nil_iff: "tokenizeCurl raw = [] \<longleftrightarrow> list_all is_space raw"
proof (cases "trim raw = []")
  case True
  then show ?thesis
    by (simp add: tokenizeCurl_def scan_tokens_Nil_iff trim_Nil_iff [symmetric])
next
  case False
  let ?a = "replaceAll [BS, CHR 0x0A] '' '' (trim raw)"
  let ?b = "replaceAll [BS, CHR 0x0D, CHR 0x0A] '' '' ?a"
  have ns: "\<not> is_space (last (trim raw))" using False by (rule trim_last)
  have nl: "last (trim raw) \<noteq> CHR 0x0A"
  proof
    assume "last (trim raw) = CHR 0x0A"
    with ns is_space_LF show False by simp
  qed
  have "last [BS, CHR 0x0A] \<noteq> last (trim raw)" using nl by simp
  then have a: "?a \<noteq> [] \<and> last ?a = last (trim raw)"
    using False by (intro replaceAll_last) simp_all
  then have "last [BS, CHR 0x0D, CHR 0x0A] \<noteq> last ?a" using nl by simp
  then have b: "?b \<noteq> [] \<and> last ?b = last ?a"
    using a by (intro replaceAll_last) simp_all
  have "last ?b \<in> set ?b" using b last_in_set by blast
  moreover have "\<not> is_space (last ?b)" using ns a b by simp
  ultimately have "\<not> list_all is_space ?b"
    unfolding list_all_iff by blast
  then have "tokenizeCurl raw \<noteq> []"
    by (simp add: tokenizeCurl_def scan_tokens_Nil_iff)
  moreover have "\<not> list_all is_space raw" using False trim_Nil_iff by blast
  ultimately show ?thesis by simp
qed

section \<open>Properties of the parser\<close>

lemma takes_argument_dash: "takes_argument tok \<Longrightarrow> startsWith tok ''-''"
  by (auto simp: takes_argument_def is_data_flag_def)

lemma is_ignored_flag_dash: "is_ignored_flag tok \<Longrightarrow> startsWith tok ''-''"
  by (auto simp: is_ignored_flag_def)

lemma positional_args_Cons:
  "positional_args (tok # rest) =
     (if takes_argument tok then positional_args (tl rest)
      else if startsWith tok ''-'' then positional_args rest
      else tok # positional_args rest)"
  by (cases rest) (auto dest: takes_argument_dash)

lemma first_url_Cons:
  "first_url (tok # rest) =
     (if takes_argument tok then first_url (tl rest)
      else if startsWith tok ''-'' \<or> tok = [] then first_url rest
      else tok)"
  by (auto simp: first_url_def positional_args_Cons)

text \<open>
  One step of the loop, by the kind of the token under the cursor. A flag of the table
  moves the cursor past its argument and leaves the URL alone; it leaves the method
  alone too unless it is the method flag.
\<close>

lemma loop_takes_argument:
  assumes "takes_argument tok"
  shows "\<exists>st'. v_url st' = v_url st \<and>
           (tok = ''-X'' \<or> tok = ''--request'' \<or> v_method st' = v_method st) \<and>
           parseCurl_loop (tok # rest) st = parseCurl_loop (tl rest) st'"
proof -
  have flag: "tok = ''-X'' \<or> tok = ''--request'' \<or> tok = ''-H'' \<or> tok = ''--header'' \<or>
      is_data_flag tok \<or> tok = ''-u'' \<or> tok = ''--user'' \<or> tok = ''--json'' \<or>
      tok = ''--form'' \<or> tok = ''-F'' \<or> tok = ''-b'' \<or> tok = ''--cookie'' \<or>
      tok = ''-A'' \<or> tok = ''--user-agent'' \<or> tok = ''-e'' \<or> tok = ''--referer''"
    using assms by (simp only: takes_argument_def)
  have *: "\<And>st'. parseCurl_loop (tok # rest) st = parseCurl_loop (tl rest) st' \<Longrightarrow>
     v_url st' = v_url st \<Longrightarrow>
     tok = ''-X'' \<or> tok = ''--request'' \<or> v_method st' = v_method st \<Longrightarrow> ?thesis"
    by blast
  from flag show ?thesis
  proof (elim disjE)
    assume "is_data_flag tok"
    then have "tok \<noteq> ''-X''" "tok \<noteq> ''--request''" "tok \<noteq> ''-H''" "tok \<noteq> ''--header''"
      by (auto simp: is_data_flag_def)
    with \<open>is_data_flag tok\<close> show ?thesis
      by (intro *[of "st\<lparr>v_body := Some (next_arg rest)\<rparr>"])
        (simp_all add: parseCurl_loop.simps)
  next
    assume "tok = ''--form''"
    then show ?thesis
      by (cases "truthy (v_body st)")
        ((rule *, simp add: parseCurl_loop.simps is_data_flag_def, simp, simp)+)
  next
    assume "tok = ''-F''"
    then show ?thesis
      by (cases "truthy (v_body st)")
        ((rule *, simp add: parseCurl_loop.simps is_data_flag_def, simp, simp)+)
  qed (rule *, simp add: parseCurl_loop.simps is_data_flag_def is_ignored_flag_def, simp, simp)+
qed

lemma loop_other_flag:
  assumes "\<not> takes_argument tok" and "startsWith tok ''-''"
  shows "parseCurl_loop (tok # rest) st = parseCurl_loop rest st"
  using assms by (simp add: parseCurl_loop.simps takes_argument_def)

lemma loop_positional:
  assumes "\<not> startsWith tok ''-''"
  shows "parseCurl_loop (tok # rest) st =
           parseCurl_loop rest (if v_url st = [] then st\<lparr>v_url := tok\<rparr> else st)"
proof -
  have "\<not> takes_argument tok" "\<not> is_ignored_flag tok"
    using assms takes_argument_dash is_ignored_flag_dash by blast+
  then show ?thesis
    using assms by (simp add: parseCurl_loop.simps takes_argument_def)
qed

text \<open>
  The URL the loop ends with: the one it started with, or else the first positional
  token that is not empty.
\<close>

lemma loop_url:
  "v_url (parseCurl_loop toks st) = (if v_url st = [] then first_url toks else v_url st)"
proof (induction toks arbitrary: st rule: length_induct)
  case (1 toks)
  show ?case
  proof (cases toks)
    case Nil
    then show ?thesis by (simp add: parseCurl_loop.simps first_url_def)
  next
    case (Cons tok rest)
    have IH: "\<And>ys st'. length ys \<le> length rest \<Longrightarrow>
       v_url (parseCurl_loop ys st') = (if v_url st' = [] then first_url ys else v_url st')"
      using 1 Cons by simp
    consider (arg) "takes_argument tok"
      | (flag) "\<not> takes_argument tok" "startsWith tok ''-''"
      | (pos) "\<not> startsWith tok ''-''" by blast
    then show ?thesis
    proof cases
      case arg
      obtain st' where st': "v_url st' = v_url st"
        "parseCurl_loop (tok # rest) st = parseCurl_loop (tl rest) st'"
        using loop_takes_argument [OF arg] by blast
      have "length (tl rest) \<le> length rest" by simp
      from IH [OF this, of st'] show ?thesis
        by (simp add: Cons st' first_url_Cons arg)
    next
      case flag
      from IH [of rest st] show ?thesis
        by (simp add: Cons loop_other_flag [OF flag] first_url_Cons flag)
    next
      case pos
      then have na: "\<not> takes_argument tok" using takes_argument_dash by blast
      from IH [of rest "if v_url st = [] then st\<lparr>v_url := tok\<rparr> else st"] show ?thesis
        by (simp add: Cons loop_positional [OF pos] first_url_Cons na pos)
    qed
  qed
qed

text \<open>What a successful parse returns, in terms of the state the loop ends with.\<close>

lemma parseCurl_SomeD:
  assumes "parseCurl raw = Inr (Some r)"
  obtains t0 rest where "tokenizeCurl raw = t0 # rest" and "toLowerCase t0 = ''curl''"
    and "v_url (parseCurl_loop rest init_vars) \<noteq> []"
    and "r = \<lparr>url = v_url (parseCurl_loop rest init_vars),
              http_method = (if v_method (parseCurl_loop rest init_vars) = []
                        then (if truthy (v_body (parseCurl_loop rest init_vars)) then ''POST'' else ''GET'')
                        else v_method (parseCurl_loop rest init_vars)),
              headers = v_headers (parseCurl_loop rest init_vars),
              body = v_body (parseCurl_loop rest init_vars),
              auth = v_auth (parseCurl_loop rest init_vars),
              isFormData = includes_str (content_type (v_headers (parseCurl_loop rest init_vars)))
                             ''application/x-www-form-urlencoded'',
              isJson = (includes_str (content_type (v_headers (parseCurl_loop rest init_vars)))
                          ''application/json'' \<or>
                        body_starts_with (v_body (parseCurl_loop rest init_vars)) ''{'' \<or>
                        body_starts_with (v_body (parseCurl_loop rest init_vars)) ''['')\<rparr>"
  using assms
  by (auto simp: parseCurl_def Let_def split: list.splits if_splits)

lemma first_url_Nil_iff:
  "first_url toks = [] \<longleftrightarrow> filter (\<lambda>t. t \<noteq> []) (positional_args toks) = []"
proof (cases "filter (\<lambda>t. t \<noteq> []) (positional_args toks)")
  case Nil
  then show ?thesis by (simp add: first_url_def)
next
  case (Cons u us)
  then have "u \<in> set (filter (\<lambda>t. t \<noteq> []) (positional_args toks))" by simp
  then have "u \<noteq> []" by simp
  then show ?thesis using Cons by (simp add: first_url_def)
qed

text \<open>
  \<^verbatim>\<open>parseCurl\<close> by cases: no token, a first token that is not the keyword, no URL, and
  the request it builds otherwise. The exception branch of the model is never taken.
\<close>

lemma parseCurl_cases:
  "parseCurl raw =
     (case tokenizeCurl raw of
        [] \<Rightarrow> Inr None
      | t0 # rest \<Rightarrow>
          if toLowerCase t0 \<noteq> ''curl'' \<or> first_url rest = [] then Inr None
          else Inr (Some
            \<lparr>url = first_url rest,
             http_method = (if v_method (parseCurl_loop rest init_vars) = []
                       then (if truthy (v_body (parseCurl_loop rest init_vars)) then ''POST'' else ''GET'')
                       else v_method (parseCurl_loop rest init_vars)),
             headers = v_headers (parseCurl_loop rest init_vars),
             body = v_body (parseCurl_loop rest init_vars),
             auth = v_auth (parseCurl_loop rest init_vars),
             isFormData = includes_str (content_type (v_headers (parseCurl_loop rest init_vars)))
                            ''application/x-www-form-urlencoded'',
             isJson = (includes_str (content_type (v_headers (parseCurl_loop rest init_vars)))
                         ''application/json'' \<or>
                       body_starts_with (v_body (parseCurl_loop rest init_vars)) ''{'' \<or>
                       body_starts_with (v_body (parseCurl_loop rest init_vars)) ''['')\<rparr>))"
proof -
  have u: "\<And>rest. v_url (parseCurl_loop rest init_vars) = first_url rest"
    by (simp add: loop_url init_vars_def)
  show ?thesis
    by (cases "tokenizeCurl raw") (simp_all add: parseCurl_def Let_def u)
qed

lemma json_shaped_body_starts_with:
  "json_shaped b = (body_starts_with b ''{'' \<or> body_starts_with b ''['')"
  unfolding body_starts_with_char by (cases b) (auto simp: json_shaped_def)

text \<open>The content type the parser classifies is the effective content type.\<close>

lemma content_type_effective: "content_type h = effective_content_type h"
  by (simp add: content_type_def or_else_def get_header_def effective_content_type_def
      stored_value_def split: option.splits)

lemma content_type_cases:
  "content_type h = [] \<or> get_header h ''Content-Type'' = Some (content_type h) \<or>
   get_header h ''content-type'' = Some (content_type h)"
  by (auto simp: content_type_def or_else_def split: option.splits)

lemma content_type_not_stored:
  assumes "mt \<noteq> []" and "\<not> stored_under h ''Content-Type'' mt"
    and "\<not> stored_under h ''content-type'' mt"
  shows "\<not> includes_str (content_type h) mt"
  using content_type_cases [of h] assms by (auto simp: stored_under_def)

lemmas eval_notions =
  first_nonspace_def json_shaped_def stored_under_def takes_argument_def first_url_def
  command_keyword_def non_flag_tokens_def url_tokens_def parsed_url_def contains_text_def
  stored_value_def effective_content_type_def

subsection \<open>The URL of the request\<close>

text \<open>
  C3, as amended. For every input whose first token is the command keyword \<^verbatim>\<open>curl\<close>
  (in any case) and that has at least one positional token that is not empty (a token
  that does not start with a dash and is not consumed as the argument of a flag of the
  table), \<^verbatim>\<open>parseCurl\<close> succeeds and the URL of the request is the first such token,
  verbatim.
\<close>

theorem url_first_positional:
  assumes "command_keyword raw" and "url_tokens raw = u # us"
  shows "\<exists>r. parseCurl raw = Inr (Some r) \<and> url r = u"
proof -
  from assms(1) obtain t0 rest where t: "tokenizeCurl raw = t0 # rest" "toLowerCase t0 = ''curl''"
    by (auto simp: command_keyword_def split: list.splits)
  have "first_url rest = u" using assms(2) t by (simp add: url_tokens_def first_url_def)
  moreover have "u \<noteq> []"
  proof -
    have "u \<in> set (url_tokens raw)" using assms(2) by simp
    then show ?thesis by (simp add: url_tokens_def)
  qed
  ultimately show ?thesis using t by (simp add: parseCurl_cases)
qed

theorem url_first_positional_witness:
  "command_keyword ''curl -X POST http://x'' \<and>
   url_tokens ''curl -X POST http://x'' = [''http://x''] \<and>
   (\<exists>r. parseCurl ''curl -X POST http://x'' = Inr (Some r) \<and> url r = ''http://x'')"
proof -
  have k: "command_keyword ''curl -X POST http://x''"
    by (simp add: eval_notions eval_parser)
  have u: "url_tokens ''curl -X POST http://x'' = [''http://x'']"
    by (simp add: eval_notions eval_parser)
  from url_first_positional [OF k u] k u show ?thesis by simp
qed

text \<open>
  C3 as stated fails: the URL is not always the first token after the keyword that does
  not start with a dash. In \<^verbatim>\<open>curl -X POST http://x\<close> that token is
  \<^verbatim>\<open>POST\<close>, the argument of \<^verbatim>\<open>-X\<close>, and the URL is \<^verbatim>\<open>http://x\<close>; in \<^verbatim>\<open>curl -H 'A: 1'\<close> it is
  the header line, and the parse fails; in \<^verbatim>\<open>curl '' http://x\<close> it is the empty token,
  which the parser passes over.
\<close>

theorem url_first_non_flag_counterexample:
  "command_keyword ''curl -X POST http://x'' \<and>
   non_flag_tokens ''curl -X POST http://x'' = [''POST'', ''http://x''] \<and>
   parsed_url ''curl -X POST http://x'' = Some ''http://x'' \<and>
   command_keyword ''curl -H 'A: 1' '' \<and>
   non_flag_tokens ''curl -H 'A: 1' '' = [''A: 1''] \<and>
   parsed_url ''curl -H 'A: 1' '' = None \<and>
   command_keyword (''curl '' @ [SQ, SQ] @ '' http://x'') \<and>
   non_flag_tokens (''curl '' @ [SQ, SQ] @ '' http://x'') = [[], ''http://x''] \<and>
   parsed_url (''curl '' @ [SQ, SQ] @ '' http://x'') = Some ''http://x''"
  by (simp add: eval_notions eval_parser)

subsection \<open>The failure signal\<close>

text \<open>
  C5. \<^verbatim>\<open>parseCurl\<close> never raises an exception: it always returns, either \<^verbatim>\<open>null\<close> or a
  request. It returns \<^verbatim>\<open>null\<close> exactly when the input is empty or white space only, or its
  first token is not \<^verbatim>\<open>curl\<close> in any case, or no positional URL is captured; \<^verbatim>\<open>null\<close>
  carries no partial request.
\<close>

theorem parse_failure_signal:
  "(\<exists>res. parseCurl raw = Inr res) \<and>
   (parseCurl raw = Inr None \<longleftrightarrow>
      (list_all is_space raw \<or> \<not> command_keyword raw \<or> url_tokens raw = []))"
proof (cases "tokenizeCurl raw")
  case Nil
  then have "list_all is_space raw" by (simp add: tokenizeCurl_Nil_iff [symmetric])
  then show ?thesis using Nil by (simp add: parseCurl_cases)
next
  case (Cons t0 rest)
  then have "\<not> list_all is_space raw" by (simp add: tokenizeCurl_Nil_iff [symmetric])
  moreover have "url_tokens raw = [] \<longleftrightarrow> first_url rest = []"
    by (simp add: url_tokens_def first_url_Nil_iff Cons)
  ultimately show ?thesis
    using Cons by (simp add: parseCurl_cases command_keyword_def)
qed

theorem parse_failure_signal_witness:
  "parseCurl [] = Inr None \<and>
   parseCurl ''   '' = Inr None \<and>
   parseCurl ''not-a-curl-command'' = Inr None \<and>
   parseCurl ''curl'' = Inr None \<and>
   parseCurl ''curl -H http://x'' = Inr None \<and>
   parseCurl ''CURL http://x'' \<noteq> Inr None"
  using parse_failure_signal [of "[]"] parse_failure_signal [of "''   ''"]
    parse_failure_signal [of "''not-a-curl-command''"] parse_failure_signal [of "''curl''"]
    parse_failure_signal [of "''curl -H http://x''"] parse_failure_signal [of "''CURL http://x''"]
  by (simp add: eval_notions eval_parser)

subsection \<open>Content-type classification\<close>

text \<open>
  C6, as amended. For every successfully parsed request, \<^verbatim>\<open>isJson\<close> holds exactly when
  the effective content type (the value stored under \<^verbatim>\<open>Content-Type\<close> when one is stored
  and it is not empty, otherwise the value stored under \<^verbatim>\<open>content-type\<close>) contains
  \<^verbatim>\<open>application/json\<close>, or the body is present and its first character that is not
  white space is an opening brace or bracket; \<^verbatim>\<open>isFormData\<close> holds exactly when the
  effective content type contains \<^verbatim>\<open>application/x-www-form-urlencoded\<close>, whatever the
  body. Both are stated of the headers and the body of the returned request, that is,
  of their final values.
\<close>

theorem content_classification:
  assumes "parseCurl raw = Inr (Some r)"
  shows "isJson r =
           (contains_text (effective_content_type (headers r)) ''application/json'' \<or>
            json_shaped (body r)) \<and>
         isFormData r =
           contains_text (effective_content_type (headers r)) ''application/x-www-form-urlencoded''"
  using assms
  unfolding json_shaped_body_starts_with content_type_effective [symmetric]
    includes_str_contains_text [symmetric]
  by (elim parseCurl_SomeD) simp

theorem content_classification_witness:
  "parseCurl ''curl -H 'content-type: application/json; charset=utf-8' -d x http://x'' =
     Inr (Some \<lparr>url = ''http://x'', http_method = ''POST'',
                headers = [(''content-type'', ''application/json; charset=utf-8'')],
                body = Some ''x'', auth = None, isFormData = False, isJson = True\<rparr>) \<and>
   contains_text (effective_content_type [(''content-type'', ''application/json; charset=utf-8'')])
     ''application/json'' \<and>
   \<not> json_shaped (Some ''x'') \<and>
   parseCurl ''curl -H 'Content-Type: application/x-www-form-urlencoded' -d a=1 http://x'' =
     Inr (Some \<lparr>url = ''http://x'', http_method = ''POST'',
                headers = [(''Content-Type'', ''application/x-www-form-urlencoded'')],
                body = Some ''a=1'', auth = None, isFormData = True, isJson = False\<rparr>) \<and>
   contains_text (effective_content_type [(''Content-Type'', ''application/x-www-form-urlencoded'')])
     ''application/x-www-form-urlencoded'' \<and>
   parseCurl ''curl -H 'content-type: text/plain' -d ' [1]' http://x'' =
     Inr (Some \<lparr>url = ''http://x'', http_method = ''POST'',
                headers = [(''content-type'', ''text/plain'')], body = Some '' [1]'',
                auth = None, isFormData = False, isJson = True\<rparr>) \<and>
   \<not> contains_text (effective_content_type [(''content-type'', ''text/plain'')]) ''application/json'' \<and>
   json_shaped (Some '' [1]'')"
proof -
  let ?h1 = "[(''content-type'', ''application/json; charset=utf-8'')]"
  let ?h2 = "[(''Content-Type'', ''application/x-www-form-urlencoded'')]"
  let ?h3 = "[(''content-type'', ''text/plain'')]"
  obtain r1 where p1: "parseCurl ''curl -H 'content-type: application/json; charset=utf-8' -d x http://x'' = Inr (Some r1)"
    and r1: "url r1 = ''http://x''" "http_method r1 = ''POST''" "headers r1 = ?h1"
      "body r1 = Some ''x''" "auth r1 = None"
    by (simp add: eval_parser)
  obtain r2 where p2: "parseCurl ''curl -H 'Content-Type: application/x-www-form-urlencoded' -d a=1 http://x'' = Inr (Some r2)"
    and r2: "url r2 = ''http://x''" "http_method r2 = ''POST''" "headers r2 = ?h2"
      "body r2 = Some ''a=1''" "auth r2 = None"
    by (simp add: eval_parser)
  obtain r3 where p3: "parseCurl ''curl -H 'content-type: text/plain' -d ' [1]' http://x'' = Inr (Some r3)"
    and r3: "url r3 = ''http://x''" "http_method r3 = ''POST''" "headers r3 = ?h3"
      "body r3 = Some '' [1]''" "auth r3 = None"
    by (simp add: eval_parser)
  have c1: "contains_text (effective_content_type ?h1) ''application/json''"
    "\<not> contains_text (effective_content_type ?h1) ''application/x-www-form-urlencoded''"
    "\<not> json_shaped (Some ''x'')"
    by (simp_all add: eval_notions is_space_def)
  have c2: "contains_text (effective_content_type ?h2) ''application/x-www-form-urlencoded''"
    "\<not> contains_text (effective_content_type ?h2) ''application/json''"
    "\<not> json_shaped (Some ''a=1'')"
    by (simp_all add: eval_notions is_space_def)
  have c3: "\<not> contains_text (effective_content_type ?h3) ''application/json''"
    "\<not> contains_text (effective_content_type ?h3) ''application/x-www-form-urlencoded''"
    "json_shaped (Some '' [1]'')"
    by (simp_all add: eval_notions is_space_def)
  from content_classification [OF p1] c1 have "isJson r1" "\<not> isFormData r1"
    by (simp_all add: r1)
  with r1 have e1: "r1 = \<lparr>url = ''http://x'', http_method = ''POST'', headers = ?h1,
      body = Some ''x'', auth = None, isFormData = False, isJson = True\<rparr>"
    by (cases r1) simp
  from content_classification [OF p2] c2 have "\<not> isJson r2" "isFormData r2"
    by (simp_all add: r2)
  with r2 have e2: "r2 = \<lparr>url = ''http://x'', http_method = ''POST'', headers = ?h2,
      body = Some ''a=1'', auth = None, isFormData = True, isJson = False\<rparr>"
    by (cases r2) simp
  from content_classification [OF p3] c3 have "isJson r3" "\<not> isFormData r3"
    by (simp_all add: r3)
  with r3 have e3: "r3 = \<lparr>url = ''http://x'', http_method = ''POST'', headers = ?h3,
      body = Some '' [1]'', auth = None, isFormData = False, isJson = True\<rparr>"
    by (cases r3) simp
  from p1 p2 p3 c1 c2 c3 show ?thesis unfolding e1 e2 e3 by simp
qed

text \<open>
  C6 as stated fails, on either reading of the stored \<^verbatim>\<open>Content-Type\<close> header. Read as
  the header of exactly that name: in \<^verbatim>\<open>curl -H 'content-type: application/json' -d x http://x\<close>
  nothing is stored under \<^verbatim>\<open>Content-Type\<close> and the body does not have the shape, and
  \<^verbatim>\<open>isJson\<close> is true. Read as any stored content-type header: in
  \<^verbatim>\<open>curl -H 'Content-Type: text/plain' -H 'content-type: application/json' -d x http://x\<close>
  a stored value contains the media type, and \<^verbatim>\<open>isJson\<close> is false.
\<close>

theorem content_type_header_counterexample:
  "parseCurl ''curl -H 'content-type: application/json' -d x http://x'' =
     Inr (Some \<lparr>url = ''http://x'', http_method = ''POST'',
                headers = [(''content-type'', ''application/json'')],
                body = Some ''x'', auth = None, isFormData = False, isJson = True\<rparr>) \<and>
   stored_value [(''content-type'', ''application/json'')] ''Content-Type'' = [] \<and>
   json_shaped (Some ''x'') = False \<and>
   parseCurl ''curl -H 'Content-Type: text/plain' -H 'content-type: application/json' -d x http://x'' =
     Inr (Some \<lparr>url = ''http://x'', http_method = ''POST'',
                headers = [(''Content-Type'', ''text/plain''), (''content-type'', ''application/json'')],
                body = Some ''x'', auth = None, isFormData = False, isJson = False\<rparr>) \<and>
   contains_text
     (stored_value [(''Content-Type'', ''text/plain''), (''content-type'', ''application/json'')]
        ''content-type'')
     ''application/json''"
  by (simp add: eval_notions eval_parser is_space_def)

text \<open>
  C10. The classification reads the headers under the exact names \<^verbatim>\<open>Content-Type\<close> and
  \<^verbatim>\<open>content-type\<close> only. For every successfully parsed request in which neither of
  the two holds a value that contains \<^verbatim>\<open>application/json\<close>, and whose body does not
  start (after white space) with an opening brace or bracket, \<^verbatim>\<open>isJson\<close> is false,
  whatever is stored under another casing of the name; likewise \<^verbatim>\<open>isFormData\<close> is false
  when neither holds a value that contains \<^verbatim>\<open>application/x-www-form-urlencoded\<close>.
\<close>

theorem content_type_exact_names:
  assumes "parseCurl raw = Inr (Some r)"
  shows "(\<not> stored_under (headers r) ''Content-Type'' ''application/json'' \<and>
          \<not> stored_under (headers r) ''content-type'' ''application/json'' \<and>
          \<not> json_shaped (body r) \<longrightarrow> \<not> isJson r) \<and>
         (\<not> stored_under (headers r) ''Content-Type'' ''application/x-www-form-urlencoded'' \<and>
          \<not> stored_under (headers r) ''content-type'' ''application/x-www-form-urlencoded''
            \<longrightarrow> \<not> isFormData r)"
proof -
  have c: "isJson r = (includes_str (content_type (headers r)) ''application/json'' \<or> json_shaped (body r))"
     "isFormData r = includes_str (content_type (headers r)) ''application/x-www-form-urlencoded''"
    using assms unfolding json_shaped_body_starts_with by (elim parseCurl_SomeD, simp)+
  show ?thesis
    unfolding c using content_type_not_stored by auto
qed

theorem content_type_exact_names_witness:
  "parseCurl ''curl -H 'CONTENT-TYPE: application/json' -H 'Content-type: application/x-www-form-urlencoded' -d a=1 http://x'' =
     Inr (Some \<lparr>url = ''http://x'', http_method = ''POST'',
                headers = [(''CONTENT-TYPE'', ''application/json''),
                           (''Content-type'', ''application/x-www-form-urlencoded'')],
                body = Some ''a=1'', auth = None, isFormData = False, isJson = False\<rparr>)"
proof -
  let ?h = "[(''CONTENT-TYPE'', ''application/json''),
             (''Content-type'', ''application/x-www-form-urlencoded'')]"
  let ?raw = "''curl -H 'CONTENT-TYPE: application/json' -H 'Content-type: application/x-www-form-urlencoded' -d a=1 http://x''"
  obtain r where p: "parseCurl ?raw = Inr (Some r)"
    and r: "url r = ''http://x''" "http_method r = ''POST''" "headers r = ?h" "body r = Some ''a=1''"
      "auth r = None"
    by (simp add: eval_parser)
  have "\<not> stored_under (headers r) ''Content-Type'' ''application/json''"
    "\<not> stored_under (headers r) ''content-type'' ''application/json''"
    "\<not> json_shaped (body r)"
    "\<not> stored_under (headers r) ''Content-Type'' ''application/x-www-form-urlencoded''"
    "\<not> stored_under (headers r) ''content-type'' ''application/x-www-form-urlencoded''"
    by (simp_all add: r eval_notions get_header_def is_space_def)
  with content_type_exact_names [OF p] have "\<not> isJson r" "\<not> isFormData r" by blast+
  with r have "r = \<lparr>url = ''http://x'', http_method = ''POST'', headers = ?h,
                body = Some ''a=1'', auth = None, isFormData = False, isJson = False\<rparr>"
    by (cases r) simp
  with p show ?thesis by simp
qed

subsection \<open>Header flags\<close>

text \<open>
  C9. A \<^verbatim>\<open>-H\<close> or \<^verbatim>\<open>--header\<close> flag whose argument has no colon is consumed with its
  argument and changes nothing: the loop goes on after the argument with the same
  state, so with the same headers. At the end of the input the flag binds the empty
  string, which has no colon either.
\<close>

theorem header_without_colon_ignored:
  assumes "tok = ''-H'' \<or> tok = ''--header''" and "CHR '':'' \<notin> set a"
  shows "parseCurl_loop (tok # a # rest) st = parseCurl_loop rest st \<and>
         parseCurl_loop [tok] st = st"
  using assms by (auto simp: parseCurl_loop.simps add_header_line_def indexOf_def next_arg_def)

theorem header_without_colon_ignored_witness:
  "parseCurl_loop [''-H'', ''no-colon'', ''-H'', ''A: 1''] init_vars =
     parseCurl_loop [''-H'', ''A: 1''] init_vars \<and>
   parseCurl_loop [''--header''] init_vars = init_vars \<and>
   v_headers (parseCurl_loop [''-H'', ''no-colon'', ''-H'', ''A: 1''] init_vars) = [(''A'', ''1'')]"
proof -
  have c: "CHR '':'' \<notin> set ''no-colon''" by simp
  have "parseCurl_loop [''-H'', ''no-colon'', ''-H'', ''A: 1''] init_vars =
     parseCurl_loop [''-H'', ''A: 1''] init_vars"
    using header_without_colon_ignored [of "''-H''" "''no-colon''" "[''-H'', ''A: 1'']" init_vars] c
    by simp
  moreover have "parseCurl_loop [''--header''] init_vars = init_vars"
    using header_without_colon_ignored [of "''--header''" "''no-colon''" "[]" init_vars] c
    by simp
  moreover have "v_headers (parseCurl_loop [''-H'', ''A: 1''] init_vars) = [(''A'', ''1'')]"
    by (simp add: eval_parser)
  ultimately show ?thesis by simp
qed

text \<open>What a header flag with a colon in its argument does, and where it falls short.\<close>

lemma takeWhile_first:
  "c \<in> set s \<Longrightarrow>
   length (takeWhile (\<lambda>x. x \<noteq> c) s) < length s \<and>
   s ! length (takeWhile (\<lambda>x. x \<noteq> c) s) = c \<and>
   take (length (takeWhile (\<lambda>x. x \<noteq> c) s)) s = takeWhile (\<lambda>x. x \<noteq> c) s"
  by (induction s) auto

text \<open>\<open>indexOf\<close> finds the first occurrence.\<close>

lemma indexOf_first:
  assumes "indexOf s c = Some i"
  shows "i < length s \<and> s ! i = c \<and> c \<notin> set (take i s)"
proof -
  from assms have c: "c \<in> set s" and i: "i = length (takeWhile (\<lambda>x. x \<noteq> c) s)"
    by (auto simp: indexOf_def split: if_splits)
  from takeWhile_first [OF c] have "i < length s" "s ! i = c"
    and t: "take i s = takeWhile (\<lambda>x. x \<noteq> c) s"
    unfolding i by simp_all
  moreover have "c \<notin> set (take i s)" unfolding t by (auto dest: set_takeWhileD)
  ultimately show ?thesis by simp
qed

lemma header_flag_step:
  assumes "tok = ''-H'' \<or> tok = ''--header''"
  shows "parseCurl_loop (tok # a # rest) st =
           parseCurl_loop rest (st\<lparr>v_headers := add_header_line (v_headers st) a\<rparr>)"
  using assms by (auto simp: parseCurl_loop.simps next_arg_def)

text \<open>
  The pair is stored under the trimmed name, over any earlier value, and no other name
  changes, unless the name is \<^verbatim>\<open>__proto__\<close>.
\<close>

lemma header_stored:
  assumes "indexOf hdr CHR '':'' = Some i" and "trim (take i hdr) \<noteq> ''__proto__''"
  shows "get_header (add_header_line h hdr) (trim (take i hdr)) = Some (trim (drop (i + 1) hdr))"
    and "k \<noteq> trim (take i hdr) \<Longrightarrow> get_header (add_header_line h hdr) k = get_header h k"
  using assms by (simp_all add: add_header_line_def set_header_def get_header_def update_conv')

lemma header_last_write_wins:
  "parseCurl ''curl -H 'A: 1' -H 'A: 2' http://x'' =
     Inr (Some \<lparr>url = ''http://x'', http_method = ''GET'', headers = [(''A'', ''2'')],
                body = None, auth = None, isFormData = False, isJson = False\<rparr>)"
  by (simp add: eval_parser)

text \<open>
  C7. Every \<^verbatim>\<open>-H\<close> occurrence whose argument has a colon is to store the pair of the
  trimmed name and value. The parser at \<^verbatim>\<open>curl -H '__proto__: x' http://x\<close>: the argument
  has a colon and a name, and the returned request has no header at all.
\<close>

theorem proto_header_not_stored:
  "parseCurl ''curl -H '__proto__: x' http://x'' =
     Inr (Some \<lparr>url = ''http://x'', http_method = ''GET'', headers = [], body = None,
                auth = None, isFormData = False, isJson = False\<rparr>)"
  by (simp add: eval_parser)

subsection \<open>Method inference\<close>

text \<open>Without a method flag among the tokens the loop leaves the method empty.\<close>

lemma loop_method:
  assumes "''-X'' \<notin> set toks" and "''--request'' \<notin> set toks"
  shows "v_method (parseCurl_loop toks st) = v_method st"
  using assms
proof (induction toks arbitrary: st rule: length_induct)
  case (1 toks)
  show ?case
  proof (cases toks)
    case Nil
    then show ?thesis by (simp add: parseCurl_loop.simps)
  next
    case (Cons tok rest)
    have IH: "v_method (parseCurl_loop ys st') = v_method st'"
      if l: "length ys \<le> length rest" and sub: "set ys \<subseteq> set rest" for ys st'
    proof -
      have "length ys < length toks" using l Cons by simp
      moreover have "''-X'' \<notin> set ys" "''--request'' \<notin> set ys"
        using sub "1.prems" Cons by auto
      ultimately show ?thesis using "1.IH" by blast
    qed
    have tok: "tok \<noteq> ''-X''" "tok \<noteq> ''--request''" using 1 Cons by auto
    consider (arg) "takes_argument tok"
      | (flag) "\<not> takes_argument tok" "startsWith tok ''-''"
      | (pos) "\<not> startsWith tok ''-''" by blast
    then show ?thesis
    proof cases
      case arg
      obtain st' where st': "v_method st' = v_method st"
        "parseCurl_loop (tok # rest) st = parseCurl_loop (tl rest) st'"
        using loop_takes_argument [OF arg, of st rest] tok by blast
      have "length (tl rest) \<le> length rest" "set (tl rest) \<subseteq> set rest"
        by (simp, cases rest, auto)
      from IH [OF this, of st'] show ?thesis by (simp add: Cons st')
    next
      case flag
      from IH [of rest st] show ?thesis by (simp add: Cons loop_other_flag [OF flag])
    next
      case pos
      from IH [of rest "if v_url st = [] then st\<lparr>v_url := tok\<rparr> else st"] show ?thesis
        by (simp add: Cons loop_positional [OF pos])
    qed
  qed
qed

text \<open>
  The method is then inferred from the truth value of the body: \<^verbatim>\<open>POST\<close> for a body that
  is not empty, \<^verbatim>\<open>GET\<close> for no body and for the empty body.
\<close>

lemma method_inference:
  assumes "parseCurl raw = Inr (Some r)"
    and "''-X'' \<notin> set (tokenizeCurl raw)" and "''--request'' \<notin> set (tokenizeCurl raw)"
  shows "http_method r = (if truthy (body r) then ''POST'' else ''GET'')"
proof -
  from assms(1) obtain t0 rest where t: "tokenizeCurl raw = t0 # rest"
    and r: "http_method r = (if v_method (parseCurl_loop rest init_vars) = []
                        then (if truthy (v_body (parseCurl_loop rest init_vars)) then ''POST'' else ''GET'')
                        else v_method (parseCurl_loop rest init_vars))"
       "body r = v_body (parseCurl_loop rest init_vars)"
    by (elim parseCurl_SomeD) simp
  have "v_method (parseCurl_loop rest init_vars) = v_method init_vars"
    using assms(2,3) t by (intro loop_method) simp_all
  then show ?thesis using r by (simp add: init_vars_def)
qed

text \<open>
  C1. With no method flag the method is to be \<^verbatim>\<open>GET\<close> when no body was supplied and
  \<^verbatim>\<open>POST\<close> when one was, the empty string included. The parser at
  \<^verbatim>\<open>curl -d '' http://x\<close>: the body is the empty string and the method is \<^verbatim>\<open>GET\<close>.
\<close>

theorem method_of_empty_body:
  "parseCurl (''curl -d '' @ [SQ, SQ] @ '' http://x'') =
     Inr (Some \<lparr>url = ''http://x'', http_method = ''GET'', headers = [], body = Some [],
                auth = None, isFormData = False, isJson = False\<rparr>)"
  by (simp add: eval_parser)

subsection \<open>Form flags\<close>

text \<open>
  A form flag keeps a body that is not empty and sets the body otherwise; it consumes its
  argument either way.
\<close>

lemma form_keeps_body:
  assumes "tok = ''--form'' \<or> tok = ''-F''" and "truthy (v_body st)"
  shows "parseCurl_loop (tok # rest) st = parseCurl_loop (tl rest) st"
  using assms by (auto simp: parseCurl_loop.simps is_data_flag_def)

lemma form_sets_body:
  assumes "tok = ''--form'' \<or> tok = ''-F''" and "\<not> truthy (v_body st)"
  shows "parseCurl_loop (tok # rest) st =
           parseCurl_loop (tl rest) (st\<lparr>v_body := Some (next_arg rest)\<rparr>)"
  using assms by (auto simp: parseCurl_loop.simps is_data_flag_def)

text \<open>
  C4. A form flag is to leave a body that was set before it unchanged, also when that
  body is the empty string. The parser at \<^verbatim>\<open>curl -F '' -F a=b http://x\<close> and at
  \<^verbatim>\<open>curl -d '' -F a=b http://x\<close>: the second flag overwrites the empty body set by the
  first.
\<close>

theorem form_after_empty_body:
  "parseCurl (''curl -F '' @ [SQ, SQ] @ '' -F a=b http://x'') =
     Inr (Some \<lparr>url = ''http://x'', http_method = ''POST'', headers = [], body = Some ''a=b'',
                auth = None, isFormData = False, isJson = False\<rparr>) \<and>
   parseCurl (''curl -d '' @ [SQ, SQ] @ '' -F a=b http://x'') =
     Inr (Some \<lparr>url = ''http://x'', http_method = ''POST'', headers = [], body = Some ''a=b'',
                auth = None, isFormData = False, isJson = False\<rparr>)"
  by (simp add: eval_parser)

section \<open>Properties of the generators\<close>

lemma indent_1: "indent 1 = ''  ''" "indent (Suc 0) = ''  ''"
  by (simp_all add: indent_def)

lemma indent_2: "indent 2 = ''    ''"
  by (simp add: indent_def numeral_2_eq_2)

subsection \<open>Requests without a body\<close>

text \<open>
  For a request whose body is \<^verbatim>\<open>null\<close> no generator prints a line that sets a body: no
  \<^verbatim>\<open>body:\<close> option, no \<^verbatim>\<open>data:\<close> field, no \<^verbatim>\<open>data =\<close> or \<^verbatim>\<open>payload =\<close> assignment, no
  \<^verbatim>\<open>body :=\<close> reader, no \<^verbatim>\<open>req.write(postData)\<close>.
\<close>

lemma fetch_no_body:
  assumes "body p = None"
  shows "filter (\<lambda>l. startsWith l ''  body:'') (generateJsFetch_lines rt p) = []"
  using assms
  by (auto simp: generateJsFetch_lines_def Let_def indent_1 indent_2 header_line_def filter_empty_conv)

lemma axios_no_body:
  assumes "body p = None"
  shows "filter (\<lambda>l. startsWith l ''  data:'') (generateJsAxios_lines rt p) = []"
  using assms
  by (auto simp: generateJsAxios_lines_def Let_def indent_1 indent_2 header_line_def filter_empty_conv
      split: option.splits)

lemma python_no_body:
  assumes "body p = None"
  shows "filter (\<lambda>l. startsWith l ''data = '' \<or> startsWith l ''payload = '')
           (generatePythonRequests_lines rt p) = []"
  using assms
  by (auto simp: generatePythonRequests_lines_def Let_def filter_empty_conv)

lemma go_no_body:
  assumes "body p = None"
  shows "filter (\<lambda>l. startsWith l (TAB @ ''body := '')) (generateGo_lines rt p) = []"
  using assms
  by (auto simp: generateGo_lines_def TAB_def truthy_def filter_empty_conv split: option.splits)

lemma node_no_body:
  assumes "body p = None"
  shows "filter (\<lambda>l. l = ''req.write(postData);'') (generateNodeJs_lines rt p) = []"
  using assms
  by (auto simp: generateNodeJs_lines_def Let_def truthy_def node_header_line_def filter_empty_conv
      split: option.splits)

subsection \<open>Requests with the empty body\<close>

text \<open>
  The fetch, axios and Python generators test the body against \<^verbatim>\<open>null\<close> and print the
  empty string as a body.
\<close>

lemma fetch_empty_body:
  "''  body: '' @ [DQ, DQ] @ '','' \<in> set (generateJsFetch_lines rt (p\<lparr>body := Some [], isJson := False\<rparr>))"
  by (simp add: generateJsFetch_lines_def Let_def jsStringify_def indent_1)

lemma axios_empty_body:
  "''  data: '' @ [DQ, DQ] @ '','' \<in> set (generateJsAxios_lines rt (p\<lparr>body := Some [], isJson := False\<rparr>))"
  by (simp add: generateJsAxios_lines_def Let_def jsStringify_def indent_1)

lemma python_empty_body:
  "''data = '' @ [DQ, DQ] \<in> set (generatePythonRequests_lines rt (p\<lparr>body := Some [], isJson := False\<rparr>))"
  by (simp add: generatePythonRequests_lines_def Let_def jsStringify_def)

text \<open>
  The Go and Node.js generators test the truth value of the body: what they print for
  the empty body is what they print for no body.
\<close>

lemma go_empty_body_as_null:
  "generateGo rt (p\<lparr>body := Some []\<rparr>) = generateGo rt (p\<lparr>body := None\<rparr>)"
  by (simp add: generateGo_def generateGo_lines_def truthy_def)

lemma node_empty_body_as_null:
  "generateNodeJs rt (p\<lparr>body := Some []\<rparr>) = generateNodeJs rt (p\<lparr>body := None\<rparr>)"
  by (cases "new_URL rt (url p)")
    (simp_all add: generateNodeJs_def generateNodeJs_lines_def node_header_entries_def truthy_def)

text \<open>
  C2. A request whose body is the empty string is to be rendered with an explicit empty
  body by all five generators. The generators at the request of \<^verbatim>\<open>curl -d '' http://x\<close>:
  the Go and the Node.js output are the output for a request without a body (the Go
  request is built with \<^verbatim>\<open>nil\<close>), while the fetch, axios and Python outputs set the empty
  string.
\<close>

theorem empty_body_rendering:
  "parseCurl (''curl -d '' @ [SQ, SQ] @ '' http://x'') = Inr (Some empty_body_request) \<and>
   generateGo rt empty_body_request = generateGo rt (empty_body_request\<lparr>body := None\<rparr>) \<and>
   generateNodeJs rt empty_body_request = generateNodeJs rt (empty_body_request\<lparr>body := None\<rparr>) \<and>
   TAB @ ''req, err := http.NewRequest('' @ [DQ] @ ''GET'' @ [DQ] @ '', url, nil)''
     \<in> set (generateGo_lines rt empty_body_request) \<and>
   ''  body: '' @ [DQ, DQ] @ '','' \<in> set (generateJsFetch_lines rt empty_body_request) \<and>
   ''  data: '' @ [DQ, DQ] @ '','' \<in> set (generateJsAxios_lines rt empty_body_request) \<and>
   ''data = '' @ [DQ, DQ] \<in> set (generatePythonRequests_lines rt empty_body_request)"
proof -
  have e: "empty_body_request = empty_body_request\<lparr>body := Some [], isJson := False\<rparr>"
    "empty_body_request = empty_body_request\<lparr>body := Some []\<rparr>"
    by (simp_all add: empty_body_request_def)
  have "parseCurl (''curl -d '' @ [SQ, SQ] @ '' http://x'') = Inr (Some empty_body_request)"
    by (simp add: empty_body_request_def eval_parser)
  moreover have "generateGo rt empty_body_request = generateGo rt (empty_body_request\<lparr>body := None\<rparr>)"
    by (subst e(2)) (simp only: go_empty_body_as_null)
  moreover have "generateNodeJs rt empty_body_request = generateNodeJs rt (empty_body_request\<lparr>body := None\<rparr>)"
    by (subst e(2)) (simp only: node_empty_body_as_null)
  moreover have "TAB @ ''req, err := http.NewRequest('' @ [DQ] @ ''GET'' @ [DQ] @ '', url, nil)''
     \<in> set (generateGo_lines rt empty_body_request)"
    by (simp add: generateGo_lines_def empty_body_request_def jsStringify_def json_escape_def
        DQ_def BS_def)
  moreover have "''  body: '' @ [DQ, DQ] @ '','' \<in> set (generateJsFetch_lines rt empty_body_request)"
    by (subst e(1)) (rule fetch_empty_body)
  moreover have "''  data: '' @ [DQ, DQ] @ '','' \<in> set (generateJsAxios_lines rt empty_body_request)"
    by (subst e(1)) (rule axios_empty_body)
  moreover have "''data = '' @ [DQ, DQ] \<in> set (generatePythonRequests_lines rt empty_body_request)"
    by (subst e(1)) (rule python_empty_body)
  ultimately show ?thesis by blast
qed

subsection \<open>The Node.js generator\<close>

text \<open>
  For a body that is not empty the computed \<^verbatim>\<open>Content-Length\<close> entry follows the stored
  headers and the \<^verbatim>\<open>Authorization\<close> entry follows it; the entry is printed as an
  expression, without quotes. The port is printed only when it is not the default of
  the protocol.
\<close>

lemma node_content_length_after_headers:
  assumes "truthy (body p)"
  shows "node_header_entries rt p =
           Object_entries (headers p)
           @ [(''Content-Length'', ''Buffer.byteLength(postData)'')]
           @ (case auth p of None \<Rightarrow> [] | Some a \<Rightarrow> [basic_auth_entry rt a])"
  using assms by (simp add: node_header_entries_def)

lemma node_content_length_line:
  "node_header_line (''Content-Length'', ''Buffer.byteLength(postData)'') =
     ''    '' @ [DQ] @ ''Content-Length'' @ [DQ] @ '': Buffer.byteLength(postData),''"
  by (simp add: node_header_line_def jsStringify_def json_escape_def DQ_def BS_def)

lemma port_shown_differs:
  assumes "port_shown proto prt"
  shows "prt \<noteq> (if proto = ''https'' then ''443'' else ''80'')"
  using assms by (auto simp: port_shown_def)

lemma node_body_example:
  "generateNodeJs_lines
     \<lparr>JSON_reformat = J, base64 = B,
      new_URL = (\<lambda>u. Some \<lparr>protocol = ''https:'', hostname = ''x'', port = ''8443'',
                            pathname = ''/a'', search = ''?b=1''\<rparr>)\<rparr>
     \<lparr>url = ''https://x:8443/a?b=1'', http_method = ''POST'', headers = [(''A'', ''1'')],
      body = Some ''k=v'', auth = Some \<lparr>user = ''u'', password = ''p''\<rparr>,
      isFormData = False, isJson = False\<rparr> =
   [''const https = require('' @ [SQ] @ ''https'' @ [SQ] @ '');'',
    [],
    ''const postData = '' @ [DQ] @ ''k=v'' @ [DQ] @ '';'',
    [],
    ''const options = {'',
    ''  hostname: '' @ [DQ] @ ''x'' @ [DQ] @ '','',
    ''  port: 8443,'',
    ''  path: '' @ [DQ] @ ''/a?b=1'' @ [DQ] @ '','',
    ''  method: '' @ [DQ] @ ''POST'' @ [DQ] @ '','',
    ''  headers: {'',
    ''    '' @ [DQ] @ ''A'' @ [DQ] @ '': '' @ [DQ] @ ''1'' @ [DQ] @ '','',
    ''    '' @ [DQ] @ ''Content-Length'' @ [DQ] @ '': Buffer.byteLength(postData),'',
    ''    '' @ [DQ] @ ''Authorization'' @ [DQ] @ '': '' @ jsStringify (''Basic '' @ B ''u:p'') @ '','',
    ''  },'',
    ''};'',
    [],
    ''const req = https.request(options, (res) => {'',
    ''  let data = '' @ [SQ, SQ] @ '';'',
    ''  res.on('' @ [SQ] @ ''data'' @ [SQ] @ '', (chunk) => { data += chunk; });'',
    ''  res.on('' @ [SQ] @ ''end'' @ [SQ] @ '', () => { console.log(JSON.parse(data)); });'',
    ''});'',
    [],
    ''req.on('' @ [SQ] @ ''error'' @ [SQ] @ '', (e) => { console.error(e); });'',
    ''req.write(postData);'',
    ''req.end();'']"
  by (simp add: generateNodeJs_lines_def eval_generators Let_def)

text \<open>
  C8. Whenever a body is present the Node.js generator is to append the computed
  \<^verbatim>\<open>Content-Length\<close> entry. The generator at the request of \<^verbatim>\<open>curl -d '' http://x\<close>, with
  the URL object of \<^verbatim>\<open>http://x\<close>: the body is present, there is no header entry and the
  output has no \<^verbatim>\<open>headers\<close> block.
\<close>

theorem node_empty_body_no_content_length:
  "node_header_entries rt empty_body_request = [] \<and>
   generateNodeJs_lines
     \<lparr>JSON_reformat = J, base64 = B,
      new_URL = (\<lambda>u. Some \<lparr>protocol = ''http:'', hostname = ''x'', port = [], pathname = ''/'',
                            search = []\<rparr>)\<rparr>
     empty_body_request =
   [''const http = require('' @ [SQ] @ ''http'' @ [SQ] @ '');'',
    [],
    ''const options = {'',
    ''  hostname: '' @ [DQ] @ ''x'' @ [DQ] @ '','',
    ''  path: '' @ [DQ] @ ''/'' @ [DQ] @ '','',
    ''  method: '' @ [DQ] @ ''GET'' @ [DQ] @ '','',
    ''};'',
    [],
    ''const req = http.request(options, (res) => {'',
    ''  let data = '' @ [SQ, SQ] @ '';'',
    ''  res.on('' @ [SQ] @ ''data'' @ [SQ] @ '', (chunk) => { data += chunk; });'',
    ''  res.on('' @ [SQ] @ ''end'' @ [SQ] @ '', () => { console.log(JSON.parse(data)); });'',
    ''});'',
    [],
    ''req.on('' @ [SQ] @ ''error'' @ [SQ] @ '', (e) => { console.error(e); });'',
    ''req.end();'']"
  by (simp add: generateNodeJs_lines_def empty_body_request_def eval_generators Let_def)

end
